theory Spec2Isabelle
  imports Complex_Main "HOL-Library.Multiset"
begin

section \<open>Data model (main/models.py)\<close>

text \<open>
  The choices classes of the models are enumerations. A \<open>DateField\<close> value is a
  calendar day, modelled by its ordinal (an integer), so that the difference of two
  dates is the number of days between them. A \<open>FloatField\<close> is modelled by a real
  number: the rounding of binary floating point is not part of this model.
\<close>

datatype RoomType = STANDARD | DELUXE | SUITE

datatype BookingStatus = PENDING | CONFIRMED | CANCELLED

datatype UserRole = USER | STAFF | ADMIN

datatype ReviewStatus = REVIEW_PENDING | REVIEW_APPROVED | REVIEW_REJECTED

type_synonym date = int

text \<open>The string stored in the database for a booking status (\<open>BookingStatus.X.value\<close>).\<close>

fun status_value :: "BookingStatus \<Rightarrow> string" where
  "status_value PENDING = ''Pending''"
| "status_value CONFIRMED = ''Confirmed''"
| "status_value CANCELLED = ''Cancelled''"

record User =
  user_id :: nat
  first_name :: string
  last_name :: string
  email :: string
  role :: UserRole
  is_superuser :: bool

text \<open>
  Of a room, the fields the booking and review logic reads. The photo, the size and the
  amenities text are not read by any operation modelled here.
\<close>

record Room =
  room_id :: nat
  room_owner :: nat
  room_type :: RoomType
  price_per_night :: real
  address :: string
  room_is_active :: bool
  capacity :: int

record Booking =
  booking_id :: nat
  booking_guest :: nat
  booking_room :: nat
  check_in_date :: date
  check_out_date :: date
  booking_status :: BookingStatus
  total_cost :: real

text \<open>
  The texts written to \<open>BookingHistory.change_description\<close> are fixed sentences (in
  Russian in the source), one per operation; the one written by the date update embeds
  the old and the new cost, which the constructor \<open>DatesChanged\<close> carries.
\<close>

datatype description =
    CreatedByUser
  | BookingCancelledText
  | BookingConfirmedText
  | DatesChanged real real

record BookingHistory =
  history_id :: nat
  history_booking :: nat
  old_status :: string
  new_status :: string
  changed_by :: string
  change_description :: description

record Review =
  review_id :: nat
  review_booking :: nat
  review_guest :: nat
  review_room :: nat
  rating :: int
  review_text :: string
  review_status :: ReviewStatus
  moderated_by :: "nat option"
  moderation_comment :: string
  moderated_at :: "nat option"
  owner_reply :: string
  owner_reply_at :: "nat option"
  review_created_at :: nat

text \<open>The tables of the database.\<close>

record store =
  users :: "User list"
  rooms :: "Room list"
  bookings :: "Booking list"
  histories :: "BookingHistory list"
  reviews :: "Review list"

text \<open>The value an \<open>AutoField\<close> primary key gets on insertion: larger than every key in use.\<close>

definition next_id :: "nat list \<Rightarrow> nat" where
  "next_id ids = Suc (foldr max ids 0)"

subsection \<open>Properties of \<open>User\<close>\<close>

definition is_admin :: "User \<Rightarrow> bool" where
  "is_admin u = (role u = ADMIN \<or> is_superuser u)"

definition is_staff :: "User \<Rightarrow> bool" where
  "is_staff u = (role u \<in> {STAFF, ADMIN} \<or> is_superuser u)"

definition is_owner :: "store \<Rightarrow> User \<Rightarrow> bool" where
  "is_owner s u = list_ex (\<lambda>r. room_owner r = user_id u) (rooms s)"

definition get_full_name :: "User \<Rightarrow> string" where
  "get_full_name u = first_name u @ '' '' @ last_name u"

text \<open>\<open>request.user.get_full_name() or request.user.email\<close>\<close>

definition display_name :: "User \<Rightarrow> string" where
  "display_name u = (let n = get_full_name u in if n \<noteq> [] then n else email u)"

section \<open>Availability (RoomManager.get_available_rooms)\<close>

text \<open>
  Strings are byte strings here. \<open>str.strip()\<close> removes the white space at both ends;
  the white space characters below are those of ASCII. The \<open>iexact\<close> lookup compares
  without regard to letter case; the case folding below is that of the ASCII letters.
\<close>

definition is_space :: "char \<Rightarrow> bool" where
  "is_space c = (let n = (of_char c :: nat) in (9 \<le> n \<and> n \<le> 13) \<or> (28 \<le> n \<and> n \<le> 32))"

definition strip :: "string \<Rightarrow> string" where
  "strip xs = rev (dropWhile is_space (rev (dropWhile is_space xs)))"

definition lower_char :: "char \<Rightarrow> char" where
  "lower_char c =
     (case map_of (zip ''ABCDEFGHIJKLMNOPQRSTUVWXYZ'' ''abcdefghijklmnopqrstuvwxyz'') c of
        None \<Rightarrow> c
      | Some l \<Rightarrow> l)"

definition iexact :: "string \<Rightarrow> string \<Rightarrow> bool" where
  "iexact a b = (map lower_char a = map lower_char b)"

definition active_status :: "BookingStatus \<Rightarrow> bool" where
  "active_status st = (st \<in> {CONFIRMED, PENDING})"

definition get_available_rooms :: "store \<Rightarrow> string option \<Rightarrow> date \<Rightarrow> date \<Rightarrow> Room list" where
  "get_available_rooms s address_arg check_in check_out =
     (let address_normalized = strip (case address_arg of None \<Rightarrow> [] | Some a \<Rightarrow> a) in
      if address_normalized = [] then []
      else
        let rooms_qs = filter (\<lambda>r. iexact (address r) address_normalized)
                         (filter (\<lambda>r. room_is_active r) (rooms s));
            bookings_qs = filter (\<lambda>b. booking_room b \<in> set (map room_id rooms_qs)
                                     \<and> check_in_date b \<le> check_out
                                     \<and> check_out_date b \<ge> check_in
                                     \<and> active_status (booking_status b)) (bookings s);
            available_rooms = filter (\<lambda>r. room_id r \<notin> set (map booking_room bookings_qs)) rooms_qs
        in sort_key price_per_night available_rooms)"

section \<open>Requests and responses\<close>

text \<open>
  A request carries the logged-in user, or nothing for \<open>AnonymousUser\<close>, and its
  HTTP verb; the three verbs below are the ones the views tell apart. Two users are the
  same when their primary keys are.
\<close>

datatype http_method = GET | POST | DELETE

text \<open>The flash messages and the form errors of the views (fixed texts in the source).\<close>

datatype message =
    OwnRoomBooking
  | BookingCreated
  | BookingCancelled
  | NoConfirmRights
  | BookingConfirmed
  | BookingUpdated
  | NoReviewRights
  | ReviewAdded
  | ReviewUpdated
  | ReviewDeleted
  | ReplyAdded
  | StatusChanged
  | ReviewApproved
  | ReviewRejected
  | UnknownAction

datatype form_error =
    FieldRequired
  | InvalidChoice
  | CheckInPast
  | CheckOutNotAfter
  | RoomAlreadyBooked
  | RatingBelowMin
  | RatingAboveMax
  | ReviewExists

datatype exn = IntegrityError | DoesNotExist | MultipleObjectsReturned | TypeError

text \<open>
  What a view answers: a 404, the redirect to the login page, the access-denied page,
  a redirect with an error message, a redirect with a success message, a redirect with
  no message, the form shown again with its errors, a page rendered for a GET, the
  answer 405 to a verb the view has no handler for, or an exception that leaves the view.
\<close>

datatype response =
    Http404
  | RedirectLogin
  | AccessDenied
  | RedirectError message
  | RedirectSuccess message
  | RedirectPlain
  | FormInvalid "form_error list"
  | RenderPage
  | MethodNotAllowed
  | Raised exn

definition same_user :: "nat \<Rightarrow> User option \<Rightarrow> bool" where
  "same_user uid ru = (case ru of None \<Rightarrow> False | Some u \<Rightarrow> user_id u = uid)"

text \<open>\<open>UserRequiredMixin\<close>: logged in, and neither administrator, staff nor superuser.\<close>

definition test_func :: "User option \<Rightarrow> bool" where
  "test_func ru = (case ru of None \<Rightarrow> False
                   | Some u \<Rightarrow> \<not> is_admin u \<and> \<not> is_staff u \<and> \<not> is_superuser u)"

definition handle_no_permission :: "User option \<Rightarrow> response" where
  "handle_no_permission ru = (case ru of None \<Rightarrow> RedirectLogin | Some u \<Rightarrow> AccessDenied)"

section \<open>Booking history rows\<close>

text \<open>
  \<open>BookingHistory.booking\<close> is a one-to-one field: the table has a unique constraint
  on it, so an insertion of a second row for a booking raises \<open>IntegrityError\<close>, and
  a \<open>get\<close> that finds several rows raises \<open>MultipleObjectsReturned\<close>.
\<close>

definition BookingHistory_create ::
  "store \<Rightarrow> nat \<Rightarrow> string \<Rightarrow> string \<Rightarrow> string \<Rightarrow> description \<Rightarrow> exn + store" where
  "BookingHistory_create s bid old new by_whom descr =
     (if list_ex (\<lambda>h. history_booking h = bid) (histories s) then Inl IntegrityError
      else Inr (s\<lparr>histories := histories s @
             [\<lparr>history_id = next_id (map history_id (histories s)), history_booking = bid,
               old_status = old, new_status = new, changed_by = by_whom,
               change_description = descr\<rparr>]\<rparr>))"

definition BookingHistory_save :: "store \<Rightarrow> BookingHistory \<Rightarrow> store" where
  "BookingHistory_save s h =
     s\<lparr>histories := map (\<lambda>x. if history_id x = history_id h then h else x) (histories s)\<rparr>"

definition BookingHistory_get :: "store \<Rightarrow> nat \<Rightarrow> exn + BookingHistory option" where
  "BookingHistory_get s bid =
     (case filter (\<lambda>h. history_booking h = bid) (histories s) of
        [] \<Rightarrow> Inr None
      | [h] \<Rightarrow> Inr (Some h)
      | h # h' # hs \<Rightarrow> Inl MultipleObjectsReturned)"

text \<open>
  \<open>Booking.save()\<close> of a row that exists: the row with that key is replaced. A
  lookup by primary key (\<open>get_object_or_404\<close>) is the first row with the key.
\<close>

definition Booking_save :: "store \<Rightarrow> Booking \<Rightarrow> store" where
  "Booking_save s b =
     s\<lparr>bookings := map (\<lambda>x. if booking_id x = booking_id b then b else x) (bookings s)\<rparr>"

section \<open>Creating a booking (BookingCreateForm, BookingCreateView)\<close>

text \<open>
  The form: both dates are required; \<open>clean_check_in_date\<close> refuses a check-in before
  today; \<open>clean\<close> compares the two dates when both were accepted. The result is the
  cleaned pair of dates, or the errors.
\<close>

definition BookingCreateForm_clean ::
  "date \<Rightarrow> date option \<Rightarrow> date option \<Rightarrow> form_error list + (date \<times> date)" where
  "BookingCreateForm_clean today check_in check_out =
     (let in_errors = (case check_in of None \<Rightarrow> [FieldRequired]
                       | Some ci \<Rightarrow> if ci < today then [CheckInPast] else []);
          out_errors = (case check_out of None \<Rightarrow> [FieldRequired] | Some co \<Rightarrow> [])
      in (case (check_in, check_out) of
            (Some ci, Some co) \<Rightarrow>
              if in_errors \<noteq> [] then Inl (in_errors @ out_errors)
              else if ci \<ge> co then Inl [CheckOutNotAfter]
              else Inr (ci, co)
          | _ \<Rightarrow> Inl (in_errors @ out_errors)))"

definition conflicting_bookings :: "store \<Rightarrow> nat \<Rightarrow> date \<Rightarrow> date \<Rightarrow> Booking list" where
  "conflicting_bookings s rid check_in check_out =
     filter (\<lambda>b. booking_room b = rid
                \<and> check_in_date b \<le> check_out
                \<and> check_out_date b \<ge> check_in
                \<and> active_status (booking_status b)) (bookings s)"

definition BookingCreateView_form_valid ::
  "store \<Rightarrow> User \<Rightarrow> Room \<Rightarrow> date \<Rightarrow> date \<Rightarrow> response \<times> store" where
  "BookingCreateView_form_valid s u room check_in check_out =
     (if conflicting_bookings s (room_id room) check_in check_out \<noteq> []
      then (FormInvalid [RoomAlreadyBooked], s)
      else
        let nights = check_out - check_in;
            obj = \<lparr>booking_id = next_id (map booking_id (bookings s)),
                   booking_guest = user_id u, booking_room = room_id room,
                   check_in_date = check_in, check_out_date = check_out,
                   booking_status = PENDING,
                   total_cost = price_per_night room * real_of_int nights\<rparr>;
            s1 = s\<lparr>bookings := bookings s @ [obj]\<rparr>
        in (case BookingHistory_create s1 (booking_id obj) [] (status_value PENDING)
                   ''SYSTEM'' CreatedByUser of
              Inl e \<Rightarrow> (Raised e, s1)
            | Inr s2 \<Rightarrow> (RedirectSuccess BookingCreated, s2)))"

text \<open>
  \<open>dispatch\<close> looks the active room up, refuses the owner, then runs the test of
  \<open>UserRequiredMixin\<close>; a POST validates the form and calls \<open>form_valid\<close>.
\<close>

definition BookingCreateView ::
  "store \<Rightarrow> date \<Rightarrow> User option \<Rightarrow> http_method \<Rightarrow> nat \<Rightarrow> date option \<Rightarrow> date option
     \<Rightarrow> response \<times> store" where
  "BookingCreateView s today ru request_method room_pk check_in check_out =
     (case find (\<lambda>r. room_id r = room_pk \<and> room_is_active r) (rooms s) of
        None \<Rightarrow> (Http404, s)
      | Some room \<Rightarrow>
          if same_user (room_owner room) ru then (RedirectError OwnRoomBooking, s)
          else if \<not> test_func ru then (handle_no_permission ru, s)
          else (case ru of
                  None \<Rightarrow> (RedirectLogin, s)
                | Some u \<Rightarrow>
                    if request_method = GET then (RenderPage, s)
                    else if request_method = DELETE then (MethodNotAllowed, s)
                    else (case BookingCreateForm_clean today check_in check_out of
                            Inl errs \<Rightarrow> (FormInvalid errs, s)
                          | Inr (ci, co) \<Rightarrow> BookingCreateView_form_valid s u room ci co)))"

section \<open>Deleting and cancelling a booking (BookingDeleteView)\<close>

text \<open>
  The view is a generic deletion view behind the test of \<open>UserRequiredMixin\<close>, on
  the queryset of the bookings of the requesting guest. It overrides the handler
  \<open>delete\<close>, which sets the status to Cancelled and updates or creates the history
  row, and \<open>get\<close>; it overrides neither \<open>post\<close> nor \<open>form_valid\<close>.
  Modelled from the framework's generic view (Django 4.0 and later; the models of this
  repository need 4.2 or later): a GET renders the confirmation page; a POST is handled by
  \<open>post\<close> of the generic view, whose \<open>form_valid\<close> deletes the object and
  redirects; only a request with the verb DELETE reaches the handler \<open>delete\<close>.
  Deleting a booking deletes the rows that refer to it with \<open>on_delete=CASCADE\<close>:
  its history row and its review.
\<close>

definition Booking_delete :: "store \<Rightarrow> Booking \<Rightarrow> store" where
  "Booking_delete s b =
     s\<lparr>bookings := filter (\<lambda>x. booking_id x \<noteq> booking_id b) (bookings s),
       histories := filter (\<lambda>h. history_booking h \<noteq> booking_id b) (histories s),
       reviews := filter (\<lambda>r. review_booking r \<noteq> booking_id b) (reviews s)\<rparr>"

definition BookingHistory_update_or_create ::
  "store \<Rightarrow> nat \<Rightarrow> string \<Rightarrow> string \<Rightarrow> string \<Rightarrow> description \<Rightarrow> exn + store" where
  "BookingHistory_update_or_create s bid old new by_whom descr =
     (case BookingHistory_get s bid of
        Inl e \<Rightarrow> Inl e
      | Inr None \<Rightarrow> BookingHistory_create s bid old new by_whom descr
      | Inr (Some h) \<Rightarrow>
          Inr (BookingHistory_save s
                 (h\<lparr>old_status := old, new_status := new, changed_by := by_whom,
                    change_description := descr\<rparr>)))"

definition BookingDeleteView ::
  "store \<Rightarrow> User option \<Rightarrow> http_method \<Rightarrow> nat \<Rightarrow> response \<times> store" where
  "BookingDeleteView s ru request_method pk =
     (if \<not> test_func ru then (handle_no_permission ru, s)
      else (case ru of
              None \<Rightarrow> (RedirectLogin, s)
            | Some u \<Rightarrow>
               (case find (\<lambda>b. booking_id b = pk \<and> booking_guest b = user_id u) (bookings s) of
                  None \<Rightarrow> (Http404, s)
                | Some booking \<Rightarrow>
                   (case request_method of
                      GET \<Rightarrow> (RenderPage, s)
                    | POST \<Rightarrow> (RedirectPlain, Booking_delete s booking)
                    | DELETE \<Rightarrow>
                        let old = booking_status booking;
                            s1 = Booking_save s (booking\<lparr>booking_status := CANCELLED\<rparr>)
                        in (case BookingHistory_update_or_create s1 (booking_id booking)
                                   (status_value old) (status_value CANCELLED)
                                   (display_name u) BookingCancelledText of
                              Inl e \<Rightarrow> (Raised e, s1)
                            | Inr s2 \<Rightarrow> (RedirectSuccess BookingCancelled, s2))))))"

section \<open>Changing the dates of a booking (update_booking_view)\<close>

definition update_booking_view ::
  "store \<Rightarrow> date \<Rightarrow> User option \<Rightarrow> http_method \<Rightarrow> nat \<Rightarrow> date option \<Rightarrow> date option
     \<Rightarrow> response \<times> store" where
  "update_booking_view s today ru request_method pk check_in check_out =
     (case ru of
        None \<Rightarrow> (RedirectLogin, s)
      | Some u \<Rightarrow>
         (case find (\<lambda>b. booking_id b = pk \<and> booking_guest b = user_id u) (bookings s) of
            None \<Rightarrow> (Http404, s)
          | Some booking \<Rightarrow>
              if request_method = POST then
                (case BookingCreateForm_clean today check_in check_out of
                   Inl errs \<Rightarrow> (FormInvalid errs, s)
                 | Inr (ci, co) \<Rightarrow>
                    (case find (\<lambda>r. room_id r = booking_room booking) (rooms s) of
                       None \<Rightarrow> (Raised DoesNotExist, s)
                     | Some room \<Rightarrow>
                         if filter (\<lambda>b. booking_id b \<noteq> booking_id booking)
                              (conflicting_bookings s (room_id room) ci co) \<noteq> []
                         then (FormInvalid [RoomAlreadyBooked], s)
                         else
                           let nights = co - ci;
                               old_cost = total_cost booking;
                               booking' = booking\<lparr>total_cost := price_per_night room * real_of_int nights,
                                                  check_in_date := ci, check_out_date := co\<rparr>;
                               s1 = Booking_save s booking';
                               descr = DatesChanged old_cost (total_cost booking')
                           in (case BookingHistory_get s1 (booking_id booking') of
                                 Inl e \<Rightarrow> (Raised e, s1)
                               | Inr None \<Rightarrow>
                                  (case BookingHistory_create s1 (booking_id booking')
                                          (status_value (booking_status booking'))
                                          (status_value (booking_status booking'))
                                          (display_name u) descr of
                                     Inl e \<Rightarrow> (Raised e, s1)
                                   | Inr s2 \<Rightarrow> (RedirectSuccess BookingUpdated, s2))
                               | Inr (Some history) \<Rightarrow>
                                  (RedirectSuccess BookingUpdated,
                                   BookingHistory_save s1
                                     (history\<lparr>change_description := descr,
                                              changed_by := display_name u\<rparr>)))))
              else (RenderPage, s)))"

section \<open>Confirming a booking (confirm_booking_view)\<close>

definition confirm_booking_view ::
  "store \<Rightarrow> User option \<Rightarrow> http_method \<Rightarrow> nat \<Rightarrow> response \<times> store" where
  "confirm_booking_view s ru request_method pk =
     (case ru of
        None \<Rightarrow> (RedirectLogin, s)
      | Some u \<Rightarrow>
         (case find (\<lambda>b. booking_id b = pk) (bookings s) of
            None \<Rightarrow> (Http404, s)
          | Some booking \<Rightarrow>
             (case (if booking_guest booking \<noteq> user_id u
                    then (case find (\<lambda>r. room_id r = booking_room booking) (rooms s) of
                            None \<Rightarrow> Inl DoesNotExist
                          | Some room \<Rightarrow> Inr (room_owner room \<noteq> user_id u))
                    else Inr False) of
                Inl e \<Rightarrow> (Raised e, s)
              | Inr True \<Rightarrow> (RedirectError NoConfirmRights, s)
              | Inr False \<Rightarrow>
                  if request_method = POST then
                    let old = booking_status booking;
                        s1 = Booking_save s (booking\<lparr>booking_status := CONFIRMED\<rparr>)
                    in (case BookingHistory_get s1 (booking_id booking) of
                          Inl e \<Rightarrow> (Raised e, s1)
                        | Inr None \<Rightarrow>
                           (case BookingHistory_create s1 (booking_id booking)
                                   (status_value old) (status_value CONFIRMED)
                                   (display_name u) BookingConfirmedText of
                              Inl e \<Rightarrow> (Raised e, s1)
                            | Inr s2 \<Rightarrow> (RedirectSuccess BookingConfirmed, s2))
                        | Inr (Some history) \<Rightarrow>
                           (RedirectSuccess BookingConfirmed,
                            BookingHistory_save s1
                              (history\<lparr>old_status := status_value old,
                                       new_status := status_value CONFIRMED,
                                       changed_by := display_name u,
                                       change_description := BookingConfirmedText\<rparr>)))
                  else (RenderPage, s))))"

section \<open>Reviews (ReviewForm, ReviewCreateView, ReviewListView, RoomDetailView)\<close>

text \<open>
  \<open>Review.booking\<close>, \<open>Review.guest\<close> and \<open>Review.room\<close> are one-to-one fields: each
  has a unique constraint, and an insertion that repeats the booking, the guest or the
  room of a stored review raises \<open>IntegrityError\<close>.
\<close>

definition Review_insert :: "store \<Rightarrow> Review \<Rightarrow> exn + store" where
  "Review_insert s r =
     (if list_ex (\<lambda>x. review_booking x = review_booking r
                     \<or> review_guest x = review_guest r
                     \<or> review_room x = review_room r) (reviews s)
      then Inl IntegrityError
      else Inr (s\<lparr>reviews := reviews s @ [r\<lparr>review_id := next_id (map review_id (reviews s))\<rparr>]\<rparr>))"

text \<open>The rating is required and has the validators \<open>MinValueValidator(1)\<close>, \<open>MaxValueValidator(5)\<close>.\<close>

definition ReviewForm_clean :: "int option \<Rightarrow> form_error list + int" where
  "ReviewForm_clean rating_arg =
     (case rating_arg of
        None \<Rightarrow> Inl [FieldRequired]
      | Some r \<Rightarrow>
          let errs = (if r < 1 then [RatingBelowMin] else []) @ (if r > 5 then [RatingAboveMax] else [])
          in if errs \<noteq> [] then Inl errs else Inr r)"

text \<open>
  \<open>dispatch\<close> looks the booking of this guest up (the lookup cannot compare a foreign
  key with \<open>AnonymousUser\<close>), refuses the owner of the room, then runs the test of
  \<open>UserRequiredMixin\<close>. \<open>form_valid\<close> saves the review and turns an
  \<open>IntegrityError\<close> into a form error.
\<close>

definition ReviewCreateView ::
  "store \<Rightarrow> nat \<Rightarrow> User option \<Rightarrow> http_method \<Rightarrow> nat \<Rightarrow> int option \<Rightarrow> string
     \<Rightarrow> response \<times> store" where
  "ReviewCreateView s now ru request_method booking_pk rating_arg text_arg =
     (case ru of
        None \<Rightarrow> (Raised TypeError, s)
      | Some u \<Rightarrow>
         (case find (\<lambda>b. booking_id b = booking_pk \<and> booking_guest b = user_id u) (bookings s) of
            None \<Rightarrow> (Http404, s)
          | Some booking \<Rightarrow>
             (case find (\<lambda>r. room_id r = booking_room booking) (rooms s) of
                None \<Rightarrow> (Raised DoesNotExist, s)
              | Some room \<Rightarrow>
                  if room_owner room = user_id u then (RedirectError NoReviewRights, s)
                  else if \<not> test_func ru then (handle_no_permission ru, s)
                  else if request_method = GET then (RenderPage, s)
                  else if request_method = DELETE then (MethodNotAllowed, s)
                  else (case ReviewForm_clean rating_arg of
                          Inl errs \<Rightarrow> (FormInvalid errs, s)
                        | Inr r \<Rightarrow>
                           (case Review_insert s
                                   \<lparr>review_id = 0, review_booking = booking_id booking,
                                    review_guest = user_id u, review_room = room_id room,
                                    rating = r, review_text = text_arg,
                                    review_status = REVIEW_PENDING,
                                    moderated_by = None, moderation_comment = [],
                                    moderated_at = None, owner_reply = [],
                                    owner_reply_at = None,
                                    review_created_at = now\<rparr> of
                              Inl IntegrityError \<Rightarrow> (FormInvalid [ReviewExists], s)
                            | Inl e \<Rightarrow> (Raised e, s)
                            | Inr s' \<Rightarrow> (RedirectSuccess ReviewAdded, s'))))))"

text \<open>\<open>Review.save()\<close> of a row that exists, and the deletion of a row.\<close>

definition Review_save :: "store \<Rightarrow> Review \<Rightarrow> store" where
  "Review_save s r =
     s\<lparr>reviews := map (\<lambda>x. if review_id x = review_id r then r else x) (reviews s)\<rparr>"

definition Review_delete :: "store \<Rightarrow> Review \<Rightarrow> store" where
  "Review_delete s r = s\<lparr>reviews := filter (\<lambda>x. review_id x \<noteq> review_id r) (reviews s)\<rparr>"

text \<open>The owner of the room a review is about (the join \<open>room__room_owner\<close>).\<close>

definition room_owner_of :: "store \<Rightarrow> nat \<Rightarrow> nat option" where
  "room_owner_of s rid = map_option room_owner (find (\<lambda>r. room_id r = rid) (rooms s))"

text \<open>
  \<open>ReviewListView.get_queryset\<close>: the \<open>room\<close> parameter of the query string, when
  present, comes first; then the owner of some room; then any logged-in user; then
  everybody else. The rows come newest first.
\<close>

definition ReviewListView_get_queryset :: "store \<Rightarrow> User option \<Rightarrow> nat option \<Rightarrow> Review list" where
  "ReviewListView_get_queryset s ru room_param =
     (let qs = reviews s;
          qs' = (case room_param of
                   Some rid \<Rightarrow>
                     filter (\<lambda>r. review_room r = rid \<and> review_status r = REVIEW_APPROVED) qs
                 | None \<Rightarrow>
                    (case ru of
                       Some u \<Rightarrow>
                         if is_owner s u
                         then filter (\<lambda>r. room_owner_of s (review_room r) = Some (user_id u)) qs
                         else filter (\<lambda>r. review_guest r = user_id u) qs
                     | None \<Rightarrow> filter (\<lambda>r. review_status r = REVIEW_APPROVED) qs))
      in rev (sort_key review_created_at qs'))"

text \<open>
  The other review views. The guest edits the rating and the text of a review of theirs,
  or deletes it; the owner of the room writes a reply; staff sets the moderation status,
  through the form or through the quick action named in the URL. The form views have no
  handler for DELETE. The deletion view deletes the review on a POST (through
  \<open>form_valid\<close> of the generic view) and on a DELETE (through its handler
  \<open>delete\<close>, which adds the message).
\<close>

definition ReviewUpdateView ::
  "store \<Rightarrow> User option \<Rightarrow> http_method \<Rightarrow> nat \<Rightarrow> int option \<Rightarrow> string \<Rightarrow> response \<times> store" where
  "ReviewUpdateView s ru request_method pk rating_arg text_arg =
     (if \<not> test_func ru then (handle_no_permission ru, s)
      else (case ru of
              None \<Rightarrow> (RedirectLogin, s)
            | Some u \<Rightarrow>
               (case find (\<lambda>r. review_id r = pk \<and> review_guest r = user_id u) (reviews s) of
                  None \<Rightarrow> (Http404, s)
                | Some review \<Rightarrow>
                    if request_method = GET then (RenderPage, s)
                    else if request_method = DELETE then (MethodNotAllowed, s)
                    else (case ReviewForm_clean rating_arg of
                            Inl errs \<Rightarrow> (FormInvalid errs, s)
                          | Inr r \<Rightarrow>
                              (RedirectSuccess ReviewUpdated,
                               Review_save s (review\<lparr>rating := r, review_text := text_arg\<rparr>))))))"

definition ReviewDeleteView ::
  "store \<Rightarrow> User option \<Rightarrow> http_method \<Rightarrow> nat \<Rightarrow> response \<times> store" where
  "ReviewDeleteView s ru request_method pk =
     (if \<not> test_func ru then (handle_no_permission ru, s)
      else (case ru of
              None \<Rightarrow> (RedirectLogin, s)
            | Some u \<Rightarrow>
               (case find (\<lambda>r. review_id r = pk \<and> review_guest r = user_id u) (reviews s) of
                  None \<Rightarrow> (Http404, s)
                | Some review \<Rightarrow>
                   (case request_method of
                      GET \<Rightarrow> (RenderPage, s)
                    | POST \<Rightarrow> (RedirectPlain, Review_delete s review)
                    | DELETE \<Rightarrow> (RedirectSuccess ReviewDeleted, Review_delete s review)))))"

definition ReviewReplyView ::
  "store \<Rightarrow> nat \<Rightarrow> User option \<Rightarrow> http_method \<Rightarrow> nat \<Rightarrow> string \<Rightarrow> response \<times> store" where
  "ReviewReplyView s now ru request_method pk reply_arg =
     (case ru of
        None \<Rightarrow> (RedirectLogin, s)
      | Some u \<Rightarrow>
         (case find (\<lambda>r. review_id r = pk \<and> room_owner_of s (review_room r) = Some (user_id u))
                 (reviews s) of
            None \<Rightarrow> (Http404, s)
          | Some review \<Rightarrow>
              if request_method = GET then (RenderPage, s)
              else if request_method = DELETE then (MethodNotAllowed, s)
              else (RedirectSuccess ReplyAdded,
                    Review_save s (review\<lparr>owner_reply := reply_arg,
                                           owner_reply_at := Some now\<rparr>))))"

text \<open>\<open>StaffRequiredMixin\<close>: logged in and staff.\<close>

definition staff_test_func :: "User option \<Rightarrow> bool" where
  "staff_test_func ru = (case ru of None \<Rightarrow> False | Some u \<Rightarrow> is_staff u)"

definition ReviewModerateView ::
  "store \<Rightarrow> nat \<Rightarrow> User option \<Rightarrow> http_method \<Rightarrow> nat \<Rightarrow> ReviewStatus option \<Rightarrow> string
     \<Rightarrow> response \<times> store" where
  "ReviewModerateView s now ru request_method pk status_arg comment_arg =
     (if \<not> staff_test_func ru then (handle_no_permission ru, s)
      else (case ru of
              None \<Rightarrow> (RedirectLogin, s)
            | Some u \<Rightarrow>
               (case find (\<lambda>r. review_id r = pk) (reviews s) of
                  None \<Rightarrow> (Http404, s)
                | Some review \<Rightarrow>
                    if request_method = GET then (RenderPage, s)
                    else if request_method = DELETE then (MethodNotAllowed, s)
                    else (case status_arg of
                            None \<Rightarrow> (FormInvalid [InvalidChoice], s)
                          | Some st \<Rightarrow>
                              (RedirectSuccess StatusChanged,
                               Review_save s
                                 (review\<lparr>review_status := st, moderation_comment := comment_arg,
                                         moderated_by := Some (user_id u),
                                         moderated_at := Some now\<rparr>))))))"

definition ReviewQuickModerateView ::
  "store \<Rightarrow> nat \<Rightarrow> User option \<Rightarrow> nat \<Rightarrow> string \<Rightarrow> response \<times> store" where
  "ReviewQuickModerateView s now ru pk action =
     (if \<not> staff_test_func ru then (handle_no_permission ru, s)
      else (case ru of
              None \<Rightarrow> (RedirectLogin, s)
            | Some u \<Rightarrow>
               (case find (\<lambda>r. review_id r = pk) (reviews s) of
                  None \<Rightarrow> (Http404, s)
                | Some review \<Rightarrow>
                    if action = ''approve'' then
                      (RedirectSuccess ReviewApproved,
                       Review_save s (review\<lparr>review_status := REVIEW_APPROVED,
                                              moderated_by := Some (user_id u),
                                              moderated_at := Some now\<rparr>))
                    else if action = ''reject'' then
                      (RedirectSuccess ReviewRejected,
                       Review_save s (review\<lparr>review_status := REVIEW_REJECTED,
                                              moderated_by := Some (user_id u),
                                              moderated_at := Some now\<rparr>))
                    else (RedirectError UnknownAction, s))))"

definition RoomDetailView_reviews :: "store \<Rightarrow> nat \<Rightarrow> Review list" where
  "RoomDetailView_reviews s room_pk =
     rev (sort_key review_created_at
            (filter (\<lambda>r. review_room r = room_pk \<and> review_status r = REVIEW_APPROVED) (reviews s)))"

section \<open>The properties to be checked\<close>

text \<open>The overlap test of two date ranges: \<open>start1 \<le> end2\<close> and \<open>end1 \<ge> start2\<close>.\<close>

definition overlaps :: "date \<Rightarrow> date \<Rightarrow> date \<Rightarrow> date \<Rightarrow> bool" where
  "overlaps in1 out1 in2 out2 = (in1 \<le> out2 \<and> out1 \<ge> in2)"

text \<open>
  A room has a conflict with a date range when one of its Pending or Confirmed bookings,
  other than the excluded one, overlaps the range.
\<close>

definition has_conflict :: "store \<Rightarrow> nat \<Rightarrow> date \<Rightarrow> date \<Rightarrow> nat option \<Rightarrow> bool" where
  "has_conflict s rid check_in check_out exclude =
     (\<exists>b\<in>set (bookings s). booking_room b = rid
          \<and> booking_status b \<in> {PENDING, CONFIRMED}
          \<and> Some (booking_id b) \<noteq> exclude
          \<and> overlaps (check_in_date b) (check_out_date b) check_in check_out)"

text \<open>A store for the search: four rooms in Moscow, one of them booked, one inactive.\<close>

definition search_store :: store where
  "search_store =
     \<lparr>users = [],
      rooms =
        [\<lparr>room_id = 1, room_owner = 1, room_type = STANDARD, price_per_night = 2000,
          address = ''moscow'', room_is_active = True, capacity = 2\<rparr>,
         \<lparr>room_id = 2, room_owner = 1, room_type = DELUXE, price_per_night = 1000,
          address = ''MOSCOW'', room_is_active = True, capacity = 2\<rparr>,
         \<lparr>room_id = 3, room_owner = 1, room_type = DELUXE, price_per_night = 500,
          address = ''Moscow'', room_is_active = True, capacity = 2\<rparr>,
         \<lparr>room_id = 4, room_owner = 1, room_type = SUITE, price_per_night = 300,
          address = ''Moscow'', room_is_active = False, capacity = 2\<rparr>],
      bookings =
        [\<lparr>booking_id = 1, booking_guest = 2, booking_room = 3, check_in_date = 739982,
          check_out_date = 739985, booking_status = CONFIRMED, total_cost = 1500\<rparr>],
      histories = [], reviews = []\<rparr>"

text \<open>A response that reports success (the redirect with a success message).\<close>

definition is_success :: "response \<Rightarrow> bool" where
  "is_success r = (case r of RedirectSuccess m \<Rightarrow> True | _ \<Rightarrow> False)"

text \<open>Referential integrity of the history table: every row belongs to a stored booking.\<close>

definition histories_fk :: "store \<Rightarrow> bool" where
  "histories_fk s = (\<forall>h\<in>set (histories s). history_booking h \<in> set (map booking_id (bookings s)))"

text \<open>
  The four reasons for which the creation of a booking is refused: no active room has
  the key; the dates are out of order or the check-in is in the past; the guest owns the
  room; the room has a conflict with the requested range.
\<close>

definition create_rejection_conditions ::
  "store \<Rightarrow> date \<Rightarrow> User \<Rightarrow> nat \<Rightarrow> date \<Rightarrow> date \<Rightarrow> bool" where
  "create_rejection_conditions s today u room_pk check_in check_out =
     (case find (\<lambda>r. room_id r = room_pk \<and> room_is_active r) (rooms s) of
        None \<Rightarrow> True
      | Some room \<Rightarrow>
          (check_in \<ge> check_out \<or> check_in < today)
          \<or> room_owner room = user_id u
          \<or> has_conflict s room_pk check_in check_out None)"

text \<open>
  People and a room for the scenarios: the owner of room 1, two guests, and a member of
  staff. Room 1 costs 1000 per night. The dates used are 2026-12-01 (739951, today) and
  2027-01-01, -03, -04, -05, -06 (739982, 739984, 739985, 739986, 739987).
\<close>

definition owner1 :: User where
  "owner1 = \<lparr>user_id = 1, first_name = ''Olga'', last_name = ''Owner'',
             email = ''olga@example.com'', role = USER, is_superuser = False\<rparr>"

definition guest2 :: User where
  "guest2 = \<lparr>user_id = 2, first_name = ''Gleb'', last_name = ''Guest'',
             email = ''gleb@example.com'', role = USER, is_superuser = False\<rparr>"

definition guest3 :: User where
  "guest3 = \<lparr>user_id = 3, first_name = ''Anna'', last_name = ''Other'',
             email = ''anna@example.com'', role = USER, is_superuser = False\<rparr>"

definition staff4 :: User where
  "staff4 = \<lparr>user_id = 4, first_name = ''Sam'', last_name = ''Staff'',
             email = ''sam@example.com'', role = STAFF, is_superuser = False\<rparr>"

definition room1 :: Room where
  "room1 = \<lparr>room_id = 1, room_owner = 1, room_type = STANDARD, price_per_night = 1000,
            address = ''Moscow'', room_is_active = True, capacity = 2\<rparr>"

definition fresh_store :: store where
  "fresh_store = \<lparr>users = [owner1, guest2, guest3, staff4], rooms = [room1],
                  bookings = [], histories = [], reviews = []\<rparr>"

text \<open>A booking after a change of dates: the two dates and the recomputed cost.\<close>

definition updated_booking :: "Booking \<Rightarrow> Room \<Rightarrow> date \<Rightarrow> date \<Rightarrow> Booking" where
  "updated_booking b room check_in check_out =
     b\<lparr>total_cost := price_per_night room * real_of_int (check_out - check_in),
       check_in_date := check_in, check_out_date := check_out\<rparr>"

text \<open>The store after the second guest has booked room 1 from 2027-01-01 to 2027-01-04.\<close>

definition booked_store :: store where
  "booked_store =
     fresh_store\<lparr>bookings :=
         [\<lparr>booking_id = 1, booking_guest = 2, booking_room = 1, check_in_date = 739982,
           check_out_date = 739985, booking_status = PENDING, total_cost = 3000\<rparr>],
       histories :=
         [\<lparr>history_id = 1, history_booking = 1, old_status = [], new_status = ''Pending'',
           changed_by = ''SYSTEM'', change_description = CreatedByUser\<rparr>]\<rparr>"

text \<open>Who may confirm a booking: its guest, or the owner of its room.\<close>

definition may_confirm :: "store \<Rightarrow> User \<Rightarrow> Booking \<Rightarrow> bool" where
  "may_confirm s u b =
     (booking_guest b = user_id u
      \<or> (case find (\<lambda>r. room_id r = booking_room b) (rooms s) of
            None \<Rightarrow> False
          | Some room \<Rightarrow> room_owner room = user_id u))"

text \<open>The booking stored in \<open>booked_store\<close>.\<close>

definition pending1 :: Booking where
  "pending1 = \<lparr>booking_id = 1, booking_guest = 2, booking_room = 1, check_in_date = 739982,
           check_out_date = 739985, booking_status = PENDING, total_cost = 3000\<rparr>"

text \<open>The store after the guest has reviewed the booking.\<close>

definition review1 :: Review where
  "review1 = \<lparr>review_id = 1, review_booking = 1, review_guest = 2, review_room = 1, rating = 4,
               review_text = ''Fine'', review_status = REVIEW_PENDING, moderated_by = None,
               moderation_comment = [], moderated_at = None, owner_reply = [],
               owner_reply_at = None, review_created_at = 5\<rparr>"

definition reviewed_store :: store where
  "reviewed_store = booked_store\<lparr>reviews := [review1]\<rparr>"

text \<open>A viewer who is neither the owner of the room of a review nor its author.\<close>

definition outsider :: "store \<Rightarrow> User option \<Rightarrow> Review \<Rightarrow> bool" where
  "outsider s ru r =
     (case ru of
        None \<Rightarrow> True
      | Some u \<Rightarrow> room_owner_of s (review_room r) \<noteq> Some (user_id u) \<and> review_guest r \<noteq> user_id u)"

text \<open>
  The visibility rule in the words of the claim, for one viewer and one query: what is
  shown to an outsider is Approved; every review of a room of the viewer is shown; every
  review written by the viewer is shown.
\<close>

definition claimed_visibility :: "store \<Rightarrow> User option \<Rightarrow> nat option \<Rightarrow> bool" where
  "claimed_visibility s ru room_param =
     (let shown = set (ReviewListView_get_queryset s ru room_param) in
        (\<forall>r\<in>shown. outsider s ru r \<longrightarrow> review_status r = REVIEW_APPROVED)
      \<and> (\<forall>r\<in>set (reviews s).
            (case ru of None \<Rightarrow> False
             | Some u \<Rightarrow> room_owner_of s (review_room r) = Some (user_id u)) \<longrightarrow> r \<in> shown)
      \<and> (\<forall>r\<in>set (reviews s).
            (case ru of None \<Rightarrow> False | Some u \<Rightarrow> review_guest r = user_id u) \<longrightarrow> r \<in> shown))"

text \<open>A second room, owned by the guest who wrote the review.\<close>

definition room2 :: Room where
  "room2 = \<lparr>room_id = 2, room_owner = 2, room_type = SUITE, price_per_night = 2500,
            address = ''Kazan'', room_is_active = True, capacity = 4\<rparr>"

definition two_owner_store :: store where
  "two_owner_store = reviewed_store\<lparr>rooms := [room1, room2]\<rparr>"

text \<open>
  The keys of the review table: the primary key and the three one-to-one fields.
\<close>

definition review_keys_ok :: "store \<Rightarrow> bool" where
  "review_keys_ok s =
     (distinct (map review_id (reviews s))
      \<and> distinct (map review_booking (reviews s))
      \<and> distinct (map review_guest (reviews s))
      \<and> distinct (map review_room (reviews s)))"

text \<open>
  The stores the views can produce, starting from any store with users and rooms but no
  booking, history row or review: each view, called with any request, leads from a
  reachable store to a reachable store.
\<close>

inductive reachable :: "store \<Rightarrow> bool" where
  initial: "bookings s = [] \<Longrightarrow> histories s = [] \<Longrightarrow> reviews s = [] \<Longrightarrow> reachable s"
| create_booking:
    "reachable s \<Longrightarrow> reachable (snd (BookingCreateView s today ru request_method pk check_in check_out))"
| cancel_booking:
    "reachable s \<Longrightarrow> reachable (snd (BookingDeleteView s ru request_method pk))"
| update_booking:
    "reachable s \<Longrightarrow> reachable (snd (update_booking_view s today ru request_method pk check_in check_out))"
| confirm_booking:
    "reachable s \<Longrightarrow> reachable (snd (confirm_booking_view s ru request_method pk))"
| create_review:
    "reachable s \<Longrightarrow> reachable (snd (ReviewCreateView s now ru request_method pk rating_arg text_arg))"
| update_review:
    "reachable s \<Longrightarrow> reachable (snd (ReviewUpdateView s ru request_method pk rating_arg text_arg))"
| delete_review:
    "reachable s \<Longrightarrow> reachable (snd (ReviewDeleteView s ru request_method pk))"
| reply_review:
    "reachable s \<Longrightarrow> reachable (snd (ReviewReplyView s now ru request_method pk reply_arg))"
| moderate_review:
    "reachable s \<Longrightarrow> reachable (snd (ReviewModerateView s now ru request_method pk status_arg comment_arg))"
| quick_moderate_review:
    "reachable s \<Longrightarrow> reachable (snd (ReviewQuickModerateView s now ru pk action))"


text \<open>
  A guest books two rooms of two owners and reviews the first stay.
\<close>

definition room3 :: Room where
  "room3 = \<lparr>room_id = 3, room_owner = 3, room_type = DELUXE, price_per_night = 1500,
            address = ''Kazan'', room_is_active = True, capacity = 3\<rparr>"

definition two_room_store :: store where
  "two_room_store = fresh_store\<lparr>rooms := [room1, room3]\<rparr>"

definition stay1 :: store where
  "stay1 = snd (BookingCreateView two_room_store 739951 (Some guest2) POST 1
                  (Some 739982) (Some 739985))"

definition stay2 :: store where
  "stay2 = snd (BookingCreateView stay1 739951 (Some guest2) POST 3
                  (Some 739986) (Some 739987))"

definition stay_reviewed :: store where
  "stay_reviewed = snd (ReviewCreateView stay2 9 (Some guest2) POST 1 (Some 5) ''Good'')"

text \<open>
  The invariant of the bookings: two different Pending or Confirmed bookings of one room
  never overlap.
\<close>

definition no_overlap :: "store \<Rightarrow> bool" where
  "no_overlap s =
     (\<forall>b1\<in>set (bookings s). \<forall>b2\<in>set (bookings s).
        booking_id b1 \<noteq> booking_id b2
        \<and> booking_room b1 = booking_room b2
        \<and> booking_status b1 \<in> {PENDING, CONFIRMED}
        \<and> booking_status b2 \<in> {PENDING, CONFIRMED}
        \<longrightarrow> \<not> overlaps (check_in_date b1) (check_out_date b1) (check_in_date b2) (check_out_date b2))"

text \<open>
  A guest books room 1 from 2027-01-01 to 2027-01-05 and cancels (a request with the verb
  DELETE, which reaches the cancelling handler); another guest books
  the room from 2027-01-03 to 2027-01-06; the first guest confirms the cancelled booking.
\<close>

definition revived1 :: store where
  "revived1 = snd (BookingCreateView fresh_store 739951 (Some guest2) POST 1
                     (Some 739982) (Some 739986))"

definition revived2 :: store where
  "revived2 = snd (BookingDeleteView revived1 (Some guest2) DELETE 1)"

definition revived3 :: store where
  "revived3 = snd (BookingCreateView revived2 739951 (Some guest3) POST 1
                     (Some 739984) (Some 739987))"

definition revived4 :: store where
  "revived4 = snd (confirm_booking_view revived3 (Some guest2) POST 1)"

section \<open>Proofs\<close>

subsection \<open>Availability\<close>

text \<open>
  C2. For every destination, date range and stored bookings, \<open>get_available_rooms\<close>
  returns exactly the active rooms whose address equals the trimmed destination without
  regard to case and that have no Pending or Confirmed booking overlapping the range,
  each once, in ascending order of price; an empty trimmed destination (or none) gives
  the empty result.
\<close>

theorem get_available_rooms_exact:
  "mset (get_available_rooms s dest check_in check_out) =
     (if strip (case dest of None \<Rightarrow> [] | Some a \<Rightarrow> a) = [] then {#}
      else filter_mset
             (\<lambda>r. room_is_active r
                 \<and> iexact (address r) (strip (case dest of None \<Rightarrow> [] | Some a \<Rightarrow> a))
                 \<and> \<not> has_conflict s (room_id r) check_in check_out None)
             (mset (rooms s)))
   \<and> sorted (map price_per_night (get_available_rooms s dest check_in check_out))"
proof -
  define d where "d = strip (case dest of None \<Rightarrow> [] | Some a \<Rightarrow> a)"
  let ?free = "\<lambda>r. room_is_active r \<and> iexact (address r) d
                  \<and> \<not> has_conflict s (room_id r) check_in check_out None"
  have "get_available_rooms s dest check_in check_out =
          (if d = [] then [] else sort_key price_per_night (filter ?free (rooms s)))"
    unfolding get_available_rooms_def Let_def active_status_def d_def [symmetric]
      has_conflict_def overlaps_def
    by (auto intro!: arg_cong [where f = "sort_key price_per_night"] filter_cong
          simp: image_iff)
  then show ?thesis
    unfolding d_def [symmetric] by simp
qed

theorem get_available_rooms_exact_witness:
  "map room_id (get_available_rooms search_store (Some ''  Moscow '') 739985 739987) = [2, 1]
   \<and> mset (get_available_rooms search_store (Some ''  Moscow '') 739985 739987) =
       {#r \<in># mset (rooms search_store). room_id r = 1 \<or> room_id r = 2#}
   \<and> get_available_rooms search_store (Some ''   '') 739985 739987 = []"
proof -
  have run: "map room_id (get_available_rooms search_store (Some ''  Moscow '') 739985 739987) = [2, 1]"
    by (simp add: get_available_rooms_def search_store_def strip_def is_space_def iexact_def
          lower_char_def active_status_def Let_def)
  have blank: "strip ''   '' = []"
    by (simp add: strip_def is_space_def)
  have some: "strip ''  Moscow '' = ''Moscow''"
    by (simp add: strip_def is_space_def)
  have a: "mset (get_available_rooms search_store (Some ''  Moscow '') 739985 739987) =
       {#r \<in># mset (rooms search_store). room_id r = 1 \<or> room_id r = 2#}"
    using get_available_rooms_exact [of search_store "Some ''  Moscow ''" 739985 739987]
    by (simp add: some search_store_def iexact_def lower_char_def has_conflict_def overlaps_def)
  have b: "get_available_rooms search_store (Some ''   '') 739985 739987 = []"
    using get_available_rooms_exact [of search_store "Some ''   ''" 739985 739987]
    by (simp add: blank)
  from run a b show ?thesis by simp
qed

subsection \<open>Auxiliary facts\<close>

lemmas scenario_defs = owner1_def guest2_def guest3_def staff4_def room1_def fresh_store_def

lemmas create_defs = BookingCreateView_def BookingCreateForm_clean_def
  BookingCreateView_form_valid_def conflicting_bookings_def BookingHistory_create_def
  next_id_def test_func_def is_admin_def is_staff_def same_user_def handle_no_permission_def
  active_status_def Let_def

lemma next_id_fresh: "i \<in> set ids \<Longrightarrow> i < next_id ids"
  unfolding next_id_def by (induction ids) (auto simp: less_Suc_eq_le max_def)

lemma conflicting_iff:
  "conflicting_bookings s rid ci co \<noteq> [] \<longleftrightarrow> has_conflict s rid ci co None"
  unfolding conflicting_bookings_def has_conflict_def overlaps_def active_status_def
  by (auto simp: filter_empty_conv)

lemma find_room_id:
  "find (\<lambda>r. room_id r = pk \<and> P r) xs = Some r \<Longrightarrow> room_id r = pk \<and> P r \<and> r \<in> set xs"
  by (auto simp: find_Some_iff)

lemma histories_fk_fresh:
  "histories_fk s \<Longrightarrow> h \<in> set (histories s) \<Longrightarrow>
     history_booking h \<noteq> next_id (map booking_id (bookings s))"
  unfolding histories_fk_def
  using next_id_fresh [of "history_booking h" "map booking_id (bookings s)"]
  by auto

subsection \<open>Creating a booking\<close>

lemma form_valid_cases:
  "BookingCreateView_form_valid s u room ci co = (resp, s') \<Longrightarrow>
     (resp = FormInvalid [RoomAlreadyBooked] \<and> s' = s \<and> has_conflict s (room_id room) ci co None)
   \<or> (\<not> has_conflict s (room_id room) ci co None \<and>
       (\<exists>b. bookings s' = bookings s @ [b] \<and> booking_id b = next_id (map booking_id (bookings s))
          \<and> booking_guest b = user_id u \<and> booking_room b = room_id room
          \<and> check_in_date b = ci \<and> check_out_date b = co \<and> booking_status b = PENDING
          \<and> total_cost b = price_per_night room * real_of_int (co - ci)
          \<and> ((\<exists>e. resp = Raised e \<and> histories s' = histories s) \<or>
              (resp = RedirectSuccess BookingCreated \<and>
                (\<exists>h. histories s' = histories s @ [h] \<and> history_booking h = booking_id b
                    \<and> old_status h = [] \<and> new_status h = ''Pending''
                    \<and> changed_by h = ''SYSTEM'' \<and> change_description h = CreatedByUser)))
          \<and> rooms s' = rooms s \<and> users s' = users s \<and> reviews s' = reviews s))"
  unfolding BookingCreateView_form_valid_def Let_def conflicting_iff BookingHistory_create_def
  by (auto split: if_splits sum.splits)

lemma form_valid_fk:
  "histories_fk s \<Longrightarrow> \<not> has_conflict s (room_id room) ci co None \<Longrightarrow>
     fst (BookingCreateView_form_valid s u room ci co) = RedirectSuccess BookingCreated"
  unfolding BookingCreateView_form_valid_def Let_def conflicting_iff BookingHistory_create_def
  by (auto simp: list_ex_iff dest: histories_fk_fresh)

lemma clean_cases:
  "BookingCreateForm_clean today (Some ci) (Some co) =
     (if ci < today then Inl [CheckInPast]
      else if ci \<ge> co then Inl [CheckOutNotAfter] else Inr (ci, co))"
  unfolding BookingCreateForm_clean_def by simp

lemma clean_Inr:
  "BookingCreateForm_clean today a b = Inr (ci, co) \<Longrightarrow>
     a = Some ci \<and> b = Some co \<and> today \<le> ci \<and> ci < co"
  unfolding BookingCreateForm_clean_def Let_def by (auto split: option.splits if_splits)

lemma create_run:
  "BookingCreateView fresh_store 739951 (Some guest2) POST 1 (Some 739982) (Some 739985) =
     (RedirectSuccess BookingCreated,
      fresh_store\<lparr>bookings :=
          [\<lparr>booking_id = 1, booking_guest = 2, booking_room = 1, check_in_date = 739982,
            check_out_date = 739985, booking_status = PENDING, total_cost = 3000\<rparr>],
        histories :=
          [\<lparr>history_id = 1, history_booking = 1, old_status = [], new_status = ''Pending'',
            changed_by = ''SYSTEM'', change_description = CreatedByUser\<rparr>]\<rparr>)"
  by (simp add: scenario_defs create_defs)

text \<open>
  C4. Every successful creation of a booking comes from a logged-in ordinary user, an
  active room and two dates in order, and stores one new booking with status Pending and
  total cost price per night times the number of days between the dates, and one new
  history row for it with empty old status, new status Pending and actor SYSTEM. In
  particular, at 1000 per night for three nights the total cost is 3000.
\<close>

theorem create_booking_success:
  assumes "BookingCreateView s today ru request_method room_pk check_in check_out = (resp, s')"
    and "is_success resp"
  shows "\<exists>u room ci co b h.
           ru = Some u \<and> test_func ru
         \<and> find (\<lambda>r. room_id r = room_pk \<and> room_is_active r) (rooms s) = Some room
         \<and> check_in = Some ci \<and> check_out = Some co \<and> ci < co
         \<and> bookings s' = bookings s @ [b]
         \<and> booking_guest b = user_id u \<and> booking_room b = room_pk
         \<and> check_in_date b = ci \<and> check_out_date b = co
         \<and> booking_status b = PENDING
         \<and> total_cost b = price_per_night room * real_of_int (co - ci)
         \<and> (price_per_night room = 1000 \<and> co - ci = 3 \<longrightarrow> total_cost b = 3000)
         \<and> histories s' = histories s @ [h]
         \<and> history_booking h = booking_id b
         \<and> old_status h = [] \<and> new_status h = status_value PENDING
         \<and> changed_by h = ''SYSTEM''"
proof -
  from assms obtain room
    where room: "find (\<lambda>r. room_id r = room_pk \<and> room_is_active r) (rooms s) = Some room"
    unfolding BookingCreateView_def is_success_def by (auto split: option.splits)
  from assms room obtain u where u: "ru = Some u" and tf: "test_func ru"
    unfolding BookingCreateView_def is_success_def handle_no_permission_def
    by (auto split: option.splits if_splits)
  from assms room u tf obtain ci co where
    cl: "BookingCreateForm_clean today check_in check_out = Inr (ci, co)"
    and fv: "BookingCreateView_form_valid s u room ci co = (resp, s')"
    unfolding BookingCreateView_def is_success_def
    by (auto split: option.splits if_splits sum.splits)
  from clean_Inr [OF cl] have d: "check_in = Some ci" "check_out = Some co" "ci < co" by auto
  from find_room_id [OF room] have rid: "room_id room = room_pk" by simp
  from form_valid_cases [OF fv] assms(2) rid room u tf d show ?thesis
    unfolding is_success_def by auto
qed

theorem create_booking_success_witness:
  "fst (BookingCreateView fresh_store 739951 (Some guest2) POST 1 (Some 739982) (Some 739985))
     = RedirectSuccess BookingCreated
   \<and> (\<exists>b h.
        bookings (snd (BookingCreateView fresh_store 739951 (Some guest2) POST 1
                         (Some 739982) (Some 739985))) = [b]
      \<and> booking_status b = PENDING \<and> total_cost b = 3000
      \<and> histories (snd (BookingCreateView fresh_store 739951 (Some guest2) POST 1
                          (Some 739982) (Some 739985))) = [h]
      \<and> history_booking h = booking_id b \<and> old_status h = []
      \<and> new_status h = ''Pending'' \<and> changed_by h = ''SYSTEM'')"
proof -
  obtain resp s' where
    r: "BookingCreateView fresh_store 739951 (Some guest2) POST 1 (Some 739982) (Some 739985)
          = (resp, s')"
    by (cases "BookingCreateView fresh_store 739951 (Some guest2) POST 1
                 (Some 739982) (Some 739985)")
  have ok: "resp = RedirectSuccess BookingCreated"
    using r unfolding create_run by simp
  then have suc: "is_success resp" by (simp add: is_success_def)
  have rm: "find (\<lambda>r. room_id r = 1 \<and> room_is_active r) (rooms fresh_store) = Some room1"
    by (simp add: scenario_defs)
  from create_booking_success [OF r suc] rm ok r show ?thesis
    by (auto simp: scenario_defs)
qed

lemma create_rejected_iff_ordinary:
  assumes "test_func (Some u)" and "histories_fk s"
  shows "(\<not> is_success (fst (BookingCreateView s today (Some u) POST room_pk
                               (Some check_in) (Some check_out)))
            \<longleftrightarrow> create_rejection_conditions s today u room_pk check_in check_out)
       \<and> (\<not> is_success (fst (BookingCreateView s today (Some u) POST room_pk
                                (Some check_in) (Some check_out)))
            \<longrightarrow> snd (BookingCreateView s today (Some u) POST room_pk
                       (Some check_in) (Some check_out)) = s)"
proof (cases "find (\<lambda>r. room_id r = room_pk \<and> room_is_active r) (rooms s)")
  case None
  then show ?thesis
    by (simp add: BookingCreateView_def create_rejection_conditions_def is_success_def)
next
  case (Some room)
  from find_room_id [OF Some] have rid: "room_id room = room_pk" by simp
  show ?thesis
  proof (cases "room_owner room = user_id u \<or> check_in < today \<or> check_in \<ge> check_out")
    case True
    then show ?thesis using Some assms(1)
      by (auto simp: BookingCreateView_def create_rejection_conditions_def is_success_def
            same_user_def clean_cases)
  next
    case False
    then have red:
      "BookingCreateView s today (Some u) POST room_pk (Some check_in) (Some check_out)
         = BookingCreateView_form_valid s u room check_in check_out"
      using Some assms(1) by (simp add: BookingCreateView_def same_user_def clean_cases)
    show ?thesis
    proof (cases "has_conflict s room_pk check_in check_out None")
      case True
      then show ?thesis using Some False rid unfolding red
        by (simp add: BookingCreateView_form_valid_def conflicting_iff
              create_rejection_conditions_def is_success_def)
    next
      case nc: False
      with form_valid_fk [OF assms(2), of room check_in check_out u] rid
      have "fst (BookingCreateView_form_valid s u room check_in check_out)
              = RedirectSuccess BookingCreated"
        by simp
      then show ?thesis using Some False nc unfolding red
        by (simp add: create_rejection_conditions_def is_success_def)
    qed
  qed
qed

lemma create_role_gate:
  assumes "\<not> test_func ru"
  shows "\<not> is_success (fst (BookingCreateView s today ru request_method room_pk
                             check_in_arg check_out_arg))
       \<and> snd (BookingCreateView s today ru request_method room_pk check_in_arg check_out_arg) = s"
  using assms unfolding BookingCreateView_def
  by (auto simp: is_success_def handle_no_permission_def split: option.splits)

text \<open>
  C3, as it holds. In a store whose history rows all belong to stored bookings: for a
  guest who passes the role test of the view (logged in, neither staff, administrator nor
  superuser), a POST with both dates is refused exactly when no active room has the key,
  or the dates are out of order or the check-in is before today, or the guest owns the
  room, or the room has a conflict with the range, and a refused creation leaves the
  store as it was; and every request of a requester who fails the role test is refused,
  whatever the verb, the room and the dates, and leaves the store as it was.
\<close>

theorem create_booking_rejected_iff:
  assumes "histories_fk s"
  shows "(test_func (Some u) \<longrightarrow>
            (\<not> is_success (fst (BookingCreateView s today (Some u) POST room_pk
                                  (Some check_in) (Some check_out)))
               \<longleftrightarrow> create_rejection_conditions s today u room_pk check_in check_out)
          \<and> (\<not> is_success (fst (BookingCreateView s today (Some u) POST room_pk
                                    (Some check_in) (Some check_out)))
               \<longrightarrow> snd (BookingCreateView s today (Some u) POST room_pk
                          (Some check_in) (Some check_out)) = s))
       \<and> (\<not> test_func ru \<longrightarrow>
            \<not> is_success (fst (BookingCreateView s today ru request_method room_pk
                                  check_in_arg check_out_arg))
          \<and> snd (BookingCreateView s today ru request_method room_pk
                   check_in_arg check_out_arg) = s)"
  using create_rejected_iff_ordinary [OF _ assms, of u today room_pk check_in check_out]
    create_role_gate [of ru s today request_method room_pk check_in_arg check_out_arg]
  by blast

theorem create_booking_rejected_iff_witness:
  "test_func (Some guest2) \<and> histories_fk fresh_store
   \<and> is_success (fst (BookingCreateView fresh_store 739951 (Some guest2) POST 1
                        (Some 739982) (Some 739985)))
   \<and> \<not> create_rejection_conditions fresh_store 739951 guest2 1 739982 739985
   \<and> \<not> is_success (fst (BookingCreateView fresh_store 739951 (Some guest2) POST 1
                          (Some 739985) (Some 739982)))
   \<and> snd (BookingCreateView fresh_store 739951 (Some guest2) POST 1
            (Some 739985) (Some 739982)) = fresh_store
   \<and> \<not> test_func (Some staff4)
   \<and> \<not> is_success (fst (BookingCreateView fresh_store 739951 (Some staff4) POST 1
                          (Some 739982) (Some 739985)))
   \<and> snd (BookingCreateView fresh_store 739951 (Some staff4) POST 1
            (Some 739982) (Some 739985)) = fresh_store"
proof -
  have tf: "test_func (Some guest2)"
    by (simp add: scenario_defs test_func_def is_admin_def is_staff_def)
  have fk: "histories_fk fresh_store"
    by (simp add: scenario_defs histories_fk_def)
  have no: "\<not> create_rejection_conditions fresh_store 739951 guest2 1 739982 739985"
    by (simp add: scenario_defs create_rejection_conditions_def has_conflict_def)
  have yes: "create_rejection_conditions fresh_store 739951 guest2 1 739985 739982"
    by (simp add: scenario_defs create_rejection_conditions_def has_conflict_def)
  have ntf: "\<not> test_func (Some staff4)"
    by (simp add: scenario_defs test_func_def is_admin_def is_staff_def)
  from create_booking_rejected_iff [OF fk, where u = guest2 and today = 739951
         and room_pk = 1 and check_in = 739982 and check_out = 739985
         and ru = "Some staff4" and request_method = POST
         and check_in_arg = "Some 739982" and check_out_arg = "Some 739985"]
    create_booking_rejected_iff [OF fk, where u = guest2 and today = 739951
         and room_pk = 1 and check_in = 739985 and check_out = 739982
         and ru = "Some staff4" and request_method = POST
         and check_in_arg = "Some 739982" and check_out_arg = "Some 739985"]
    tf fk no yes ntf
  show ?thesis by simp
qed

text \<open>
  C3, as stated, fails: \<open>dispatch\<close> of the view ends in the role test of
  \<open>UserRequiredMixin\<close>, so a logged-in member of staff who asks for a free, active
  room of somebody else with valid dates is refused, although none of the four reasons
  holds.
\<close>

theorem create_booking_staff_counterexample:
  "\<not> is_success (fst (BookingCreateView fresh_store 739951 (Some staff4) POST 1
                       (Some 739982) (Some 739985)))
   \<and> fst (BookingCreateView fresh_store 739951 (Some staff4) POST 1
            (Some 739982) (Some 739985)) = AccessDenied
   \<and> \<not> create_rejection_conditions fresh_store 739951 staff4 1 739982 739985"
  by (simp add: scenario_defs create_defs create_rejection_conditions_def has_conflict_def
        is_success_def)

subsection \<open>Rows found by key\<close>

lemma filter_key_distinct:
  "distinct (map f xs) \<Longrightarrow>
     filter (\<lambda>x. f x = k) xs = (case find (\<lambda>x. f x = k) xs of None \<Rightarrow> [] | Some x \<Rightarrow> [x])"
proof (induction xs)
  case Nil
  then show ?case by simp
next
  case (Cons a xs)
  show ?case
  proof (cases "f a = k")
    case True
    with Cons.prems have "\<forall>x\<in>set xs. f x \<noteq> k" by (auto simp: image_iff)
    then have "filter (\<lambda>x. f x = k) xs = []" by (simp add: filter_empty_conv)
    with True show ?thesis by simp
  next
    case False
    with Cons show ?thesis by simp
  qed
qed

lemma history_get_distinct:
  "distinct (map history_booking (histories s)) \<Longrightarrow>
     BookingHistory_get s k = Inr (find (\<lambda>h. history_booking h = k) (histories s))"
  unfolding BookingHistory_get_def by (simp add: filter_key_distinct split: option.splits)

lemma histories_Booking_save [simp]: "histories (Booking_save s b) = histories s"
  by (simp add: Booking_save_def)

lemma rooms_Booking_save [simp]: "rooms (Booking_save s b) = rooms s"
  by (simp add: Booking_save_def)

lemma bookings_Booking_save:
  "bookings (Booking_save s b) =
     map (\<lambda>x. if booking_id x = booking_id b then b else x) (bookings s)"
  by (simp add: Booking_save_def)

lemma bookings_history_save [simp]: "bookings (BookingHistory_save s h) = bookings s"
  by (simp add: BookingHistory_save_def)

lemma rooms_history_save [simp]: "rooms (BookingHistory_save s h) = rooms s"
  by (simp add: BookingHistory_save_def)

lemma history_create_after_none:
  "find (\<lambda>h. history_booking h = k) (histories s) = None \<Longrightarrow>
     BookingHistory_create s k old new w d =
       Inr (s\<lparr>histories := histories s @
             [\<lparr>history_id = next_id (map history_id (histories s)), history_booking = k,
               old_status = old, new_status = new, changed_by = w,
               change_description = d\<rparr>]\<rparr>)"
  unfolding BookingHistory_create_def by (auto simp: list_ex_iff find_None_iff)

lemma excl_conflicting_iff:
  "filter (\<lambda>b. booking_id b \<noteq> pk) (conflicting_bookings s rid ci co) = []
     \<longleftrightarrow> \<not> has_conflict s rid ci co (Some pk)"
  unfolding conflicting_bookings_def has_conflict_def overlaps_def active_status_def
  by (auto simp: filter_empty_conv)

lemma find_booking_id:
  "find (\<lambda>b. booking_id b = pk \<and> P b) xs = Some b \<Longrightarrow> booking_id b = pk \<and> P b \<and> b \<in> set xs"
  by (auto simp: find_Some_iff)

lemma find_room_plain:
  "find (\<lambda>r. room_id r = k) xs = Some r \<Longrightarrow> room_id r = k \<and> r \<in> set xs"
  by (auto simp: find_Some_iff)

lemma find_history_booking:
  "find (\<lambda>h. history_booking h = k) xs = Some h \<Longrightarrow> history_booking h = k \<and> h \<in> set xs"
  by (auto simp: find_Some_iff)

lemma history_save_member:
  "h \<in> set (histories s) \<Longrightarrow> history_id h' = history_id h \<Longrightarrow>
     h' \<in> set (histories (BookingHistory_save s h'))"
  unfolding BookingHistory_save_def by (auto simp: image_iff)

subsection \<open>Changing the dates\<close>

text \<open>
  With at most one history row per booking (the unique constraint of the one-to-one
  field), the view has five refusals that leave the store alone and one way through.
\<close>

lemma update_view_normal_form:
  assumes "distinct (map history_booking (histories s))"
  shows "update_booking_view s today ru request_method pk check_in check_out =
     (case ru of
        None \<Rightarrow> (RedirectLogin, s)
      | Some u \<Rightarrow>
         (case find (\<lambda>b. booking_id b = pk \<and> booking_guest b = user_id u) (bookings s) of
            None \<Rightarrow> (Http404, s)
          | Some booking \<Rightarrow>
              if request_method = POST then
                (case BookingCreateForm_clean today check_in check_out of
                   Inl errs \<Rightarrow> (FormInvalid errs, s)
                 | Inr (ci, co) \<Rightarrow>
                    (case find (\<lambda>r. room_id r = booking_room booking) (rooms s) of
                       None \<Rightarrow> (Raised DoesNotExist, s)
                     | Some room \<Rightarrow>
                         if has_conflict s (booking_room booking) ci co (Some pk)
                         then (FormInvalid [RoomAlreadyBooked], s)
                         else (RedirectSuccess BookingUpdated,
                               let s1 = Booking_save s (updated_booking booking room ci co);
                                   descr = DatesChanged (total_cost booking)
                                             (price_per_night room * real_of_int (co - ci))
                               in (case find (\<lambda>h. history_booking h = pk) (histories s) of
                                     None \<Rightarrow>
                                       s1\<lparr>histories := histories s @
                                         [\<lparr>history_id = next_id (map history_id (histories s)),
                                           history_booking = pk,
                                           old_status = status_value (booking_status booking),
                                           new_status = status_value (booking_status booking),
                                           changed_by = display_name u,
                                           change_description = descr\<rparr>]\<rparr>
                                   | Some h \<Rightarrow>
                                       BookingHistory_save s1
                                         (h\<lparr>change_description := descr,
                                            changed_by := display_name u\<rparr>)))))
              else (RenderPage, s)))"
  unfolding update_booking_view_def
  apply (simp split: option.splits sum.splits prod.splits add: Let_def)
  apply (intro allI impI conjI)
  apply (auto dest!: find_booking_id find_room_plain
      simp: excl_conflicting_iff history_get_distinct assms updated_booking_def
        history_create_after_none)
  done

lemma update_accepts_iff:
  assumes "distinct (map history_booking (histories s))"
  shows "is_success (fst (update_booking_view s today ru request_method pk check_in check_out)) \<longleftrightarrow>
     (\<exists>u b room ci co. ru = Some u
        \<and> find (\<lambda>b. booking_id b = pk \<and> booking_guest b = user_id u) (bookings s) = Some b
        \<and> request_method = POST \<and> check_in = Some ci \<and> check_out = Some co \<and> today \<le> ci \<and> ci < co
        \<and> find (\<lambda>r. room_id r = booking_room b) (rooms s) = Some room
        \<and> \<not> has_conflict s (booking_room b) ci co (Some pk))"
  unfolding update_view_normal_form [OF assms]
  by (auto simp: is_success_def clean_cases split: option.splits sum.splits dest!: clean_Inr)

lemma update_rejected_unchanged:
  assumes "distinct (map history_booking (histories s))"
  shows "\<not> is_success (fst (update_booking_view s today ru request_method pk check_in check_out)) \<Longrightarrow>
     snd (update_booking_view s today ru request_method pk check_in check_out) = s"
  unfolding update_view_normal_form [OF assms]
  by (auto simp: is_success_def split: option.splits sum.splits if_splits)

lemma update_effect:
  assumes "distinct (map history_booking (histories s))"
    and "ru = Some u"
    and "find (\<lambda>b. booking_id b = pk \<and> booking_guest b = user_id u) (bookings s) = Some b"
    and "check_in = Some ci" and "check_out = Some co"
    and "find (\<lambda>r. room_id r = booking_room b) (rooms s) = Some room"
    and "is_success (fst (update_booking_view s today ru request_method pk check_in check_out))"
  shows "bookings (snd (update_booking_view s today ru request_method pk check_in check_out)) =
           map (\<lambda>x. if booking_id x = pk then updated_booking b room ci co else x) (bookings s)
     \<and> (\<exists>h\<in>set (histories (snd (update_booking_view s today ru request_method pk check_in check_out))).
           history_booking h = pk
         \<and> change_description h =
             DatesChanged (total_cost b) (total_cost (updated_booking b room ci co))
         \<and> changed_by h = display_name u)"
proof -
  from find_booking_id [OF assms(3)] have bid: "booking_id b = pk" by simp
  have upd: "booking_id (updated_booking b room ci co) = pk"
    "total_cost (updated_booking b room ci co) = price_per_night room * real_of_int (co - ci)"
    using bid by (simp_all add: updated_booking_def)
  show ?thesis
  proof (cases "find (\<lambda>h. history_booking h = pk) (histories s)")
    case None
    with assms(2-7) upd show ?thesis
      unfolding update_view_normal_form [OF assms(1)]
      by (auto simp: is_success_def bookings_Booking_save clean_cases Let_def
            split: if_splits)
  next
    case (Some h)
    from find_history_booking [OF Some]
    have h: "history_booking h = pk" "h \<in> set (histories s)"
      by simp_all
    let ?h' = "h\<lparr>change_description :=
                    DatesChanged (total_cost b) (price_per_night room * real_of_int (co - ci)),
                 changed_by := display_name u\<rparr>"
    have "?h' \<in> set (histories (BookingHistory_save
                                  (Booking_save s (updated_booking b room ci co)) ?h'))"
      by (rule history_save_member [of h]) (simp_all add: h)
    with Some assms(2-7) upd h show ?thesis
      unfolding update_view_normal_form [OF assms(1)]
      by (auto simp: is_success_def bookings_Booking_save clean_cases Let_def
            split: if_splits intro!: bexI [of _ ?h'])
  qed
qed

text \<open>
  C5. In a store with at most one history row per booking: a change of dates goes
  through exactly when the requester is the guest of the booking, the request is a POST
  with two dates, the check-in is not before today and is before the check-out, the room
  of the booking is stored, and no other Pending or Confirmed booking of the room (the
  booking's own key excluded) overlaps the new range. When it goes through, the stored
  booking gets the new check-in, the new check-out and the recomputed cost together, and
  its history row records the old and the new cost and the guest as actor. When it does
  not, the store is the one before: no booking is left partly updated.
\<close>

theorem update_booking_dates_all_or_nothing:
  assumes "distinct (map history_booking (histories s))"
  shows "(is_success (fst (update_booking_view s today ru request_method pk check_in check_out)) \<longleftrightarrow>
           (\<exists>u b room ci co. ru = Some u
              \<and> find (\<lambda>b. booking_id b = pk \<and> booking_guest b = user_id u) (bookings s) = Some b
              \<and> request_method = POST \<and> check_in = Some ci \<and> check_out = Some co
              \<and> today \<le> ci \<and> ci < co
              \<and> find (\<lambda>r. room_id r = booking_room b) (rooms s) = Some room
              \<and> \<not> has_conflict s (booking_room b) ci co (Some pk)))
       \<and> (\<forall>u b room ci co.
             is_success (fst (update_booking_view s today ru request_method pk check_in check_out))
             \<and> ru = Some u
             \<and> find (\<lambda>b. booking_id b = pk \<and> booking_guest b = user_id u) (bookings s) = Some b
             \<and> check_in = Some ci \<and> check_out = Some co
             \<and> find (\<lambda>r. room_id r = booking_room b) (rooms s) = Some room
             \<longrightarrow> bookings (snd (update_booking_view s today ru request_method pk check_in check_out)) =
                   map (\<lambda>x. if booking_id x = pk then updated_booking b room ci co else x)
                     (bookings s)
               \<and> (\<exists>h\<in>set (histories
                             (snd (update_booking_view s today ru request_method pk check_in check_out))).
                      history_booking h = pk
                    \<and> change_description h =
                        DatesChanged (total_cost b) (total_cost (updated_booking b room ci co))
                    \<and> changed_by h = display_name u))
       \<and> (\<not> is_success (fst (update_booking_view s today ru request_method pk check_in check_out))
            \<longrightarrow> snd (update_booking_view s today ru request_method pk check_in check_out) = s)"
  using update_accepts_iff [OF assms, of today ru request_method pk check_in check_out]
    update_rejected_unchanged [OF assms, of today ru request_method pk check_in check_out]
    update_effect [OF assms, of ru _ pk _ check_in _ check_out _ _ today request_method]
  by blast


lemma update_run:
  "update_booking_view booked_store 739951 (Some guest2) POST 1 (Some 739984) (Some 739986) =
     (RedirectSuccess BookingUpdated,
      booked_store\<lparr>bookings :=
          [\<lparr>booking_id = 1, booking_guest = 2, booking_room = 1, check_in_date = 739984,
            check_out_date = 739986, booking_status = PENDING, total_cost = 2000\<rparr>],
        histories :=
          [\<lparr>history_id = 1, history_booking = 1, old_status = [], new_status = ''Pending'',
            changed_by = ''Gleb Guest'', change_description = DatesChanged 3000 2000\<rparr>]\<rparr>)"
  by (simp add: booked_store_def scenario_defs update_booking_view_def BookingCreateForm_clean_def
        conflicting_bookings_def BookingHistory_get_def BookingHistory_save_def Booking_save_def
        display_name_def get_full_name_def active_status_def Let_def)

theorem update_booking_dates_all_or_nothing_witness:
  "distinct (map history_booking (histories booked_store))
   \<and> is_success (fst (update_booking_view booked_store 739951 (Some guest2) POST 1
                        (Some 739984) (Some 739986)))
   \<and> \<not> has_conflict booked_store 1 739984 739986 (Some 1)
   \<and> \<not> is_success (fst (update_booking_view booked_store 739951 (Some guest3) POST 1
                          (Some 739984) (Some 739986)))
   \<and> snd (update_booking_view booked_store 739951 (Some guest3) POST 1
            (Some 739984) (Some 739986)) = booked_store"
proof -
  have d: "distinct (map history_booking (histories booked_store))"
    by (simp add: booked_store_def scenario_defs)
  have ok: "is_success (fst (update_booking_view booked_store 739951 (Some guest2) POST 1
                        (Some 739984) (Some 739986)))"
    unfolding update_run by (simp add: is_success_def)
  have nf: "find (\<lambda>b. booking_id b = 1 \<and> booking_guest b = user_id guest3) (bookings booked_store)
              = None"
    by (simp add: booked_store_def scenario_defs)
  have nc: "\<not> has_conflict booked_store 1 739984 739986 (Some 1)"
    by (simp add: has_conflict_def booked_store_def scenario_defs)
  from update_booking_dates_all_or_nothing [OF d, of 739951 "Some guest3" POST 1
         "Some 739984" "Some 739986"] nf
  have "\<not> is_success (fst (update_booking_view booked_store 739951 (Some guest3) POST 1
                          (Some 739984) (Some 739986)))
     \<and> snd (update_booking_view booked_store 739951 (Some guest3) POST 1
            (Some 739984) (Some 739986)) = booked_store"
    by auto
  with d ok nc show ?thesis by simp
qed

subsection \<open>Confirming\<close>

lemma count_key_one:
  "distinct (map f xs) \<Longrightarrow> h \<in> set xs \<Longrightarrow> f h = k \<Longrightarrow> length (filter (\<lambda>x. f x = k) xs) = 1"
  by (auto simp: filter_key_distinct find_None_iff split: option.splits)

lemma same_key_same_row:
  "distinct (map f xs) \<Longrightarrow> x \<in> set xs \<Longrightarrow> y \<in> set xs \<Longrightarrow> f x = f y \<Longrightarrow> x = y"
  by (meson distinct_map inj_onD)

lemma history_save_keys:
  assumes "distinct (map history_id (histories s))" and "h \<in> set (histories s)"
    and "history_id h' = history_id h" and "history_booking h' = history_booking h"
  shows "map history_id (histories (BookingHistory_save s h')) = map history_id (histories s)"
    and "map history_booking (histories (BookingHistory_save s h')) = map history_booking (histories s)"
proof -
  show "map history_id (histories (BookingHistory_save s h')) = map history_id (histories s)"
    unfolding BookingHistory_save_def by (simp add: assms(3) comp_def)
  have "\<forall>x\<in>set (histories s). history_id x = history_id h \<longrightarrow> x = h"
    using same_key_same_row [OF assms(1) _ assms(2)] by blast
  then show "map history_booking (histories (BookingHistory_save s h')) = map history_booking (histories s)"
    unfolding BookingHistory_save_def by (auto simp: assms(3,4))
qed

lemma find_replaced:
  "find (\<lambda>x. f x = k) xs = Some b \<Longrightarrow> f b' = k \<Longrightarrow>
     find (\<lambda>x. f x = k) (map (\<lambda>x. if f x = k then b' else x) xs) = Some b'"
  by (induction xs) (auto split: if_splits)

lemma find_after_save:
  "find (\<lambda>b. booking_id b = pk) (bookings s) = Some b \<Longrightarrow> booking_id b' = pk \<Longrightarrow>
     find (\<lambda>b. booking_id b = pk) (bookings (Booking_save s b')) = Some b'"
  unfolding Booking_save_def using find_replaced [of booking_id pk "bookings s" b b']
  by simp


lemma find_plain_id:
  "find (\<lambda>b. booking_id b = pk) xs = Some b \<Longrightarrow> booking_id b = pk \<and> b \<in> set xs"
  by (auto simp: find_Some_iff)

lemma confirm_step:
  assumes hb: "distinct (map history_booking (histories s))"
    and hi: "distinct (map history_id (histories s))"
    and fb: "find (\<lambda>b. booking_id b = pk) (bookings s) = Some b"
    and mc: "may_confirm s u b"
  shows "\<exists>s1. confirm_booking_view s (Some u) POST pk = (RedirectSuccess BookingConfirmed, s1)
           \<and> rooms s1 = rooms s
           \<and> find (\<lambda>b. booking_id b = pk) (bookings s1) = Some (b\<lparr>booking_status := CONFIRMED\<rparr>)
           \<and> distinct (map history_booking (histories s1))
           \<and> distinct (map history_id (histories s1))
           \<and> length (filter (\<lambda>h. history_booking h = pk) (histories s1)) = 1"
proof -
  from find_plain_id [OF fb] have bid: "booking_id b = pk" by simp
  let ?b' = "b\<lparr>booking_status := CONFIRMED\<rparr>"
  let ?s1 = "Booking_save s ?b'"
  have perm: "(if booking_guest b \<noteq> user_id u
               then (case find (\<lambda>r. room_id r = booking_room b) (rooms s) of
                       None \<Rightarrow> Inl DoesNotExist
                     | Some room \<Rightarrow> Inr (room_owner room \<noteq> user_id u))
               else Inr False) = Inr False"
    using mc unfolding may_confirm_def by (auto split: option.splits)
  have fb': "find (\<lambda>b. booking_id b = pk) (bookings ?s1) = Some ?b'"
    using find_after_save [OF fb, of ?b'] bid by simp
  have get: "BookingHistory_get ?s1 pk = Inr (find (\<lambda>h. history_booking h = pk) (histories s))"
    using history_get_distinct [of ?s1 pk] hb by simp
  show ?thesis
  proof (cases "find (\<lambda>h. history_booking h = pk) (histories s)")
    case None
    let ?new = "\<lparr>history_id = next_id (map history_id (histories s)), history_booking = pk,
                 old_status = status_value (booking_status b),
                 new_status = status_value CONFIRMED, changed_by = display_name u,
                 change_description = BookingConfirmedText\<rparr>"
    let ?s2 = "?s1\<lparr>histories := histories s @ [?new]\<rparr>"
    have cr: "BookingHistory_create ?s1 pk (status_value (booking_status b))
                (status_value CONFIRMED) (display_name u) BookingConfirmedText = Inr ?s2"
      using history_create_after_none [of pk ?s1] None by simp
    have run: "confirm_booking_view s (Some u) POST pk = (RedirectSuccess BookingConfirmed, ?s2)"
      unfolding confirm_booking_view_def using fb perm get None cr bid
      by (simp add: Let_def)
    have nokey: "pk \<notin> history_booking ` set (histories s)"
      using None by (auto simp: find_None_iff)
    have noid: "next_id (map history_id (histories s)) \<notin> history_id ` set (histories s)"
      using next_id_fresh [of _ "map history_id (histories s)"] by fastforce
    have d1: "distinct (map history_booking (histories ?s2))"
      using hb nokey by simp
    have d2: "distinct (map history_id (histories ?s2))"
      using hi noid by simp
    have "length (filter (\<lambda>h. history_booking h = pk) (histories ?s2)) = 1"
      by (rule count_key_one [OF d1, of ?new]) simp_all
    with run fb' d1 d2 show ?thesis
      by (intro exI [of _ ?s2]) simp
  next
    case (Some h)
    from find_history_booking [OF Some]
    have h: "history_booking h = pk" "h \<in> set (histories s)" by simp_all
    let ?h' = "h\<lparr>old_status := status_value (booking_status b),
                 new_status := status_value CONFIRMED, changed_by := display_name u,
                 change_description := BookingConfirmedText\<rparr>"
    let ?s2 = "BookingHistory_save ?s1 ?h'"
    have run: "confirm_booking_view s (Some u) POST pk = (RedirectSuccess BookingConfirmed, ?s2)"
      unfolding confirm_booking_view_def using fb perm get Some bid
      by (simp add: Let_def)
    have keys: "map history_id (histories ?s2) = map history_id (histories s)"
      "map history_booking (histories ?s2) = map history_booking (histories s)"
      using history_save_keys [of ?s1 h ?h'] hi h by simp_all
    have mem: "?h' \<in> set (histories ?s2)"
      by (rule history_save_member [of h]) (simp_all add: h)
    have d1: "distinct (map history_booking (histories ?s2))" using hb keys by simp
    have d2: "distinct (map history_id (histories ?s2))" using hi keys by simp
    have "length (filter (\<lambda>h. history_booking h = pk) (histories ?s2)) = 1"
      by (rule count_key_one [OF d1 mem]) (simp add: h)
    with run fb' d1 d2 show ?thesis
      by (intro exI [of _ ?s2]) simp
  qed
qed

text \<open>
  C6. In a store that respects the keys of the history table (one row per booking, one
  row per primary key): for a Pending booking, two confirmations in a row, each by the
  guest of the booking or by the owner of its room, both go through, and leave the
  booking Confirmed with exactly one history row.
\<close>

theorem confirm_twice_one_history:
  assumes "distinct (map history_booking (histories s))"
    and "distinct (map history_id (histories s))"
    and "find (\<lambda>b. booking_id b = pk) (bookings s) = Some b"
    and "booking_status b = PENDING"
    and "may_confirm s u1 b" and "may_confirm s u2 b"
  shows "\<exists>s1 s2 b2.
           confirm_booking_view s (Some u1) POST pk = (RedirectSuccess BookingConfirmed, s1)
         \<and> confirm_booking_view s1 (Some u2) POST pk = (RedirectSuccess BookingConfirmed, s2)
         \<and> find (\<lambda>b. booking_id b = pk) (bookings s2) = Some b2
         \<and> booking_status b2 = CONFIRMED
         \<and> length (filter (\<lambda>h. history_booking h = pk) (histories s2)) = 1"
proof -
  from confirm_step [OF assms(1,2,3,5)] obtain s1 where
    s1: "confirm_booking_view s (Some u1) POST pk = (RedirectSuccess BookingConfirmed, s1)"
      "rooms s1 = rooms s"
      "find (\<lambda>b. booking_id b = pk) (bookings s1) = Some (b\<lparr>booking_status := CONFIRMED\<rparr>)"
      "distinct (map history_booking (histories s1))"
      "distinct (map history_id (histories s1))"
    by blast
  have mc: "may_confirm s1 u2 (b\<lparr>booking_status := CONFIRMED\<rparr>)"
    using assms(6) s1(2) by (simp add: may_confirm_def)
  from confirm_step [OF s1(4,5,3) mc] obtain s2 where
    s2: "confirm_booking_view s1 (Some u2) POST pk = (RedirectSuccess BookingConfirmed, s2)"
      "find (\<lambda>b. booking_id b = pk) (bookings s2)
         = Some (b\<lparr>booking_status := CONFIRMED, booking_status := CONFIRMED\<rparr>)"
      "length (filter (\<lambda>h. history_booking h = pk) (histories s2)) = 1"
    by blast
  from s1(1) s2 show ?thesis by auto
qed


theorem confirm_twice_one_history_witness:
  "distinct (map history_booking (histories booked_store))
   \<and> distinct (map history_id (histories booked_store))
   \<and> find (\<lambda>b. booking_id b = 1) (bookings booked_store) = Some pending1
   \<and> booking_status pending1 = PENDING
   \<and> may_confirm booked_store guest2 pending1 \<and> may_confirm booked_store owner1 pending1
   \<and> (\<exists>s1 s2 b2.
           confirm_booking_view booked_store (Some guest2) POST 1 = (RedirectSuccess BookingConfirmed, s1)
         \<and> confirm_booking_view s1 (Some owner1) POST 1 = (RedirectSuccess BookingConfirmed, s2)
         \<and> find (\<lambda>b. booking_id b = 1) (bookings s2) = Some b2
         \<and> booking_status b2 = CONFIRMED
         \<and> length (filter (\<lambda>h. history_booking h = 1) (histories s2)) = 1)"
proof -
  have a: "distinct (map history_booking (histories booked_store))"
    and b: "distinct (map history_id (histories booked_store))"
    and c: "find (\<lambda>b. booking_id b = 1) (bookings booked_store) = Some pending1"
    and d: "booking_status pending1 = PENDING"
    by (simp_all add: booked_store_def scenario_defs pending1_def)
  have e: "may_confirm booked_store guest2 pending1"
    and f: "may_confirm booked_store owner1 pending1"
    by (simp_all add: may_confirm_def booked_store_def scenario_defs pending1_def)
  from confirm_twice_one_history [OF a b c d e f] a b c d e f show ?thesis by blast
qed

subsection \<open>Deleting and cancelling\<close>

lemma map_id_Booking_save:
  "booking_id b = pk \<Longrightarrow> map booking_id (bookings (Booking_save s b)) = map booking_id (bookings s)"
  unfolding Booking_save_def by (simp add: comp_def if_distrib [of booking_id] cong: if_cong)

lemma update_or_create_result:
  "BookingHistory_update_or_create s k old new w d = Inr s2 \<Longrightarrow>
     bookings s2 = bookings s
   \<and> (\<exists>h\<in>set (histories s2). history_booking h = k \<and> old_status h = old \<and> new_status h = new
          \<and> changed_by h = w \<and> change_description h = d)"
  unfolding BookingHistory_update_or_create_def BookingHistory_get_def BookingHistory_create_def
  apply (auto split: list.splits if_splits sum.splits option.splits)
  subgoal for h
    apply (rule bexI [of _ "h\<lparr>old_status := old, new_status := new, changed_by := w, change_description := d\<rparr>"])
     apply (auto simp: BookingHistory_save_def filter_eq_Cons_iff image_iff)
    done
  done


lemma display_name_full: "display_name u = get_full_name u"
  by (simp add: display_name_def get_full_name_def)

lemma update_or_create_distinct:
  "distinct (map history_booking (histories s)) \<Longrightarrow>
     \<exists>s2. BookingHistory_update_or_create s k old new w d = Inr s2"
  unfolding BookingHistory_update_or_create_def
  by (auto simp: history_get_distinct history_create_after_none split: option.splits)

lemma cancel_cases:
  assumes "BookingDeleteView s ru DELETE pk = (resp, s')"
  shows "(s' = s \<and> \<not> is_success resp)
       \<or> (\<exists>u b. ru = Some u \<and> test_func ru
             \<and> find (\<lambda>b. booking_id b = pk \<and> booking_guest b = user_id u) (bookings s) = Some b
             \<and> ((\<exists>e. resp = Raised e \<and> s' = Booking_save s (b\<lparr>booking_status := CANCELLED\<rparr>))
                \<or> (resp = RedirectSuccess BookingCancelled
                    \<and> BookingHistory_update_or_create (Booking_save s (b\<lparr>booking_status := CANCELLED\<rparr>)) pk
                         (status_value (booking_status b)) (status_value CANCELLED)
                         (display_name u) BookingCancelledText = Inr s')))"
  using assms unfolding BookingDeleteView_def Let_def
  by (auto simp: is_success_def handle_no_permission_def
        split: option.splits if_splits sum.splits dest!: find_booking_id)

text \<open>
  A request with the verb DELETE reaches the handler that cancels. It never removes a
  row, changes the store only for the guest of the booking, and when it reports success
  the booking has the status Cancelled and its history row has the old status, the new
  status Cancelled and the full name of the guest as actor.
\<close>

lemma delete_request_is_status_transition:
  assumes "BookingDeleteView s ru DELETE pk = (resp, s')"
  shows "map booking_id (bookings s') = map booking_id (bookings s)
     \<and> (s' \<noteq> s \<longrightarrow>
          (\<exists>u b. ru = Some u
             \<and> find (\<lambda>b. booking_id b = pk \<and> booking_guest b = user_id u) (bookings s) = Some b))
     \<and> (is_success resp \<longrightarrow>
          (\<exists>u b. ru = Some u
             \<and> find (\<lambda>b. booking_id b = pk \<and> booking_guest b = user_id u) (bookings s) = Some b
             \<and> bookings s' =
                 map (\<lambda>x. if booking_id x = pk then b\<lparr>booking_status := CANCELLED\<rparr> else x)
                   (bookings s)
             \<and> (\<exists>h\<in>set (histories s').
                    history_booking h = pk
                  \<and> old_status h = status_value (booking_status b)
                  \<and> new_status h = status_value CANCELLED
                  \<and> changed_by h = get_full_name u)))
     \<and> (test_func ru \<and> distinct (map history_booking (histories s))
          \<and> (\<exists>u b. ru = Some u
                \<and> find (\<lambda>b. booking_id b = pk \<and> booking_guest b = user_id u) (bookings s) = Some b)
          \<longrightarrow> is_success resp)"
proof -
  from cancel_cases [OF assms] consider
    (same) "s' = s" "\<not> is_success resp"
    | (raised) u b e where "ru = Some u" "test_func ru"
        "find (\<lambda>b. booking_id b = pk \<and> booking_guest b = user_id u) (bookings s) = Some b"
        "resp = Raised e" "s' = Booking_save s (b\<lparr>booking_status := CANCELLED\<rparr>)"
    | (saved) u b where "ru = Some u" "test_func ru"
        "find (\<lambda>b. booking_id b = pk \<and> booking_guest b = user_id u) (bookings s) = Some b"
        "resp = RedirectSuccess BookingCancelled"
        "BookingHistory_update_or_create (Booking_save s (b\<lparr>booking_status := CANCELLED\<rparr>)) pk
           (status_value (booking_status b)) (status_value CANCELLED)
           (display_name u) BookingCancelledText = Inr s'"
    by blast
  then show ?thesis
  proof cases
    case same
    have "test_func ru \<and> distinct (map history_booking (histories s))
          \<and> (\<exists>u b. ru = Some u
                \<and> find (\<lambda>b. booking_id b = pk \<and> booking_guest b = user_id u) (bookings s) = Some b)
          \<longrightarrow> is_success resp"
    proof (intro impI, elim conjE exE)
      fix u b
      assume tf: "test_func ru" and d: "distinct (map history_booking (histories s))"
        and u: "ru = Some u"
        and b: "find (\<lambda>b. booking_id b = pk \<and> booking_guest b = user_id u) (bookings s) = Some b"
      from find_booking_id [OF b] have bid: "booking_id b = pk" by simp
      from update_or_create_distinct [of "Booking_save s (b\<lparr>booking_status := CANCELLED\<rparr>)" pk
          "status_value (booking_status b)" "status_value CANCELLED" "display_name u" BookingCancelledText] d
      obtain s2 where "BookingHistory_update_or_create (Booking_save s (b\<lparr>booking_status := CANCELLED\<rparr>)) pk
           (status_value (booking_status b)) (status_value CANCELLED)
           (display_name u) BookingCancelledText = Inr s2" by auto
      with assms tf u b bid show "is_success resp"
        unfolding BookingDeleteView_def Let_def by (auto simp: is_success_def)
    qed
    with same show ?thesis by simp
  next
    case raised
    from find_booking_id [OF raised(3)] have bid: "booking_id b = pk" by simp
    have "map booking_id (bookings s') = map booking_id (bookings s)"
      unfolding raised(5) using map_id_Booking_save [of "b\<lparr>booking_status := CANCELLED\<rparr>" pk s] bid
      by simp
    moreover have "is_success resp"
      if "distinct (map history_booking (histories s))"
    proof -
      from update_or_create_distinct [of "Booking_save s (b\<lparr>booking_status := CANCELLED\<rparr>)" pk
          "status_value (booking_status b)" "status_value CANCELLED" "display_name u" BookingCancelledText] that
      obtain s2 where "BookingHistory_update_or_create (Booking_save s (b\<lparr>booking_status := CANCELLED\<rparr>)) pk
           (status_value (booking_status b)) (status_value CANCELLED)
           (display_name u) BookingCancelledText = Inr s2" by auto
      with assms raised(1-4) bid show ?thesis
        unfolding BookingDeleteView_def Let_def by (auto simp: is_success_def)
    qed
    ultimately show ?thesis using raised by (auto simp: is_success_def)
  next
    case saved
    from find_booking_id [OF saved(3)] have bid: "booking_id b = pk" by simp
    from update_or_create_result [OF saved(5)] obtain h where
      h: "bookings s' = bookings (Booking_save s (b\<lparr>booking_status := CANCELLED\<rparr>))"
        "h \<in> set (histories s')" "history_booking h = pk"
        "old_status h = status_value (booking_status b)"
        "new_status h = status_value CANCELLED" "changed_by h = display_name u"
      by blast
    have ids: "map booking_id (bookings s') = map booking_id (bookings s)"
      unfolding h(1) using map_id_Booking_save [of "b\<lparr>booking_status := CANCELLED\<rparr>" pk s] bid
      by simp
    have rows: "bookings s' =
                 map (\<lambda>x. if booking_id x = pk then b\<lparr>booking_status := CANCELLED\<rparr> else x)
                   (bookings s)"
      unfolding h(1) using bid by (simp add: bookings_Booking_save)
    from ids rows h saved show ?thesis
      by (auto simp: is_success_def display_name_full)
  qed
qed

lemma delete_request_run:
  "is_success (fst (BookingDeleteView booked_store (Some guest2) DELETE 1))
   \<and> map booking_id (bookings (snd (BookingDeleteView booked_store (Some guest2) DELETE 1))) = [1]
   \<and> map booking_status (bookings (snd (BookingDeleteView booked_store (Some guest2) DELETE 1)))
       = [CANCELLED]"
proof -
  obtain resp s' where r: "BookingDeleteView booked_store (Some guest2) DELETE 1 = (resp, s')"
    by (cases "BookingDeleteView booked_store (Some guest2) DELETE 1")
  have tf: "test_func (Some guest2)"
    by (simp add: scenario_defs test_func_def is_admin_def is_staff_def)
  have d: "distinct (map history_booking (histories booked_store))"
    by (simp add: booked_store_def scenario_defs)
  have f: "find (\<lambda>b. booking_id b = 1 \<and> booking_guest b = user_id guest2) (bookings booked_store)
             = Some pending1"
    by (simp add: booked_store_def scenario_defs pending1_def)
  have ids: "map booking_id (bookings booked_store) = [1]"
    by (simp add: booked_store_def scenario_defs)
  have rows: "map (\<lambda>x. if booking_id x = 1 then pending1\<lparr>booking_status := CANCELLED\<rparr> else x)
                (bookings booked_store) = [pending1\<lparr>booking_status := CANCELLED\<rparr>]"
    by (simp add: booked_store_def scenario_defs)
  note T = delete_request_is_status_transition [OF r]
  have ok: "is_success resp"
    using T tf d f by blast
  have keys: "map booking_id (bookings s') = map booking_id (bookings booked_store)"
    using T by blast
  from T ok obtain u b where
    ub: "Some guest2 = Some u"
      "find (\<lambda>b. booking_id b = 1 \<and> booking_guest b = user_id u) (bookings booked_store) = Some b"
      "bookings s' = map (\<lambda>x. if booking_id x = 1 then b\<lparr>booking_status := CANCELLED\<rparr> else x)
                       (bookings booked_store)"
    by blast
  from ub(1,2) f have b: "b = pending1" by simp
  have "bookings s' = [pending1\<lparr>booking_status := CANCELLED\<rparr>]"
    unfolding ub(3) b by (rule rows)
  with ok keys ids show ?thesis unfolding r by simp
qed

text \<open>A request with another verb leaves the store alone or deletes a booking.\<close>

lemma delete_view_other:
  "request_method \<noteq> DELETE \<Longrightarrow>
     snd (BookingDeleteView s ru request_method pk) = s
     \<or> (\<exists>b. snd (BookingDeleteView s ru request_method pk) = Booking_delete s b)"
  unfolding BookingDeleteView_def
  by (cases request_method) (auto split: option.splits)

lemma post_delete_general:
  assumes "test_func (Some u)"
    and "find (\<lambda>b. booking_id b = pk \<and> booking_guest b = user_id u) (bookings s) = Some b"
  shows "BookingDeleteView s (Some u) POST pk = (RedirectPlain, Booking_delete s b)"
    and "pk \<notin> booking_id ` set (bookings (snd (BookingDeleteView s (Some u) POST pk)))"
    and "pk \<notin> history_booking ` set (histories (snd (BookingDeleteView s (Some u) POST pk)))"
proof -
  from find_booking_id [OF assms(2)] have bid: "booking_id b = pk" by simp
  show run: "BookingDeleteView s (Some u) POST pk = (RedirectPlain, Booking_delete s b)"
    using assms by (simp add: BookingDeleteView_def)
  show "pk \<notin> booking_id ` set (bookings (snd (BookingDeleteView s (Some u) POST pk)))"
    unfolding run using bid by (auto simp: Booking_delete_def)
  show "pk \<notin> history_booking ` set (histories (snd (BookingDeleteView s (Some u) POST pk)))"
    unfolding run using bid by (auto simp: Booking_delete_def)
qed

text \<open>
  C7 says that the deletion by the guest is a change of the status to Cancelled and that
  the booking row is never removed. The handler \<open>delete\<close> of the view does that (its
  comment says that the status is changed instead of deleting), but the view leaves the
  POST route of the generic deletion view as it is, and a POST, which is what the
  confirmation form sends, deletes the booking. In the store with the Pending booking 1
  of the second guest and its history row, the guest's POST is answered with the plain
  redirect and leaves no booking row and no history row.
\<close>

theorem post_delete_removes_booking:
  "map booking_id (bookings booked_store) = [1]
   \<and> map history_booking (histories booked_store) = [1]
   \<and> fst (BookingDeleteView booked_store (Some guest2) POST 1) = RedirectPlain
   \<and> bookings (snd (BookingDeleteView booked_store (Some guest2) POST 1)) = []
   \<and> histories (snd (BookingDeleteView booked_store (Some guest2) POST 1)) = []"
  by (simp add: booked_store_def scenario_defs BookingDeleteView_def Booking_delete_def
        test_func_def is_admin_def is_staff_def)

subsection \<open>Reviews\<close>

text \<open>
  C8. When a review is stored for a booking, no call that asks to create a review for the
  same booking succeeds, and every such call leaves the store as it was, so no second
  row is created. A call that passes the access checks and the form validation (the
  guest of the booking, not the owner of the room, an ordinary user, a POST with a rating
  from 1 to 5) is answered with the form error that a review for the booking exists: the
  integrity error of the store is caught and turned into that error.
\<close>

theorem second_review_rejected:
  assumes "\<exists>r\<in>set (reviews s). review_booking r = pk"
  shows "\<not> is_success (fst (ReviewCreateView s now ru request_method pk rating_arg txt))
       \<and> snd (ReviewCreateView s now ru request_method pk rating_arg txt) = s
       \<and> (\<forall>u b room rt. ru = Some u \<and> test_func ru \<and> request_method = POST
             \<and> find (\<lambda>b. booking_id b = pk \<and> booking_guest b = user_id u) (bookings s) = Some b
             \<and> find (\<lambda>r. room_id r = booking_room b) (rooms s) = Some room
             \<and> room_owner room \<noteq> user_id u
             \<and> rating_arg = Some rt \<and> 1 \<le> rt \<and> rt \<le> 5
             \<longrightarrow> fst (ReviewCreateView s now ru request_method pk rating_arg txt) = FormInvalid [ReviewExists])"
  using assms
  unfolding ReviewCreateView_def Review_insert_def ReviewForm_clean_def Let_def
  by (auto split: option.splits sum.splits exn.splits if_splits
        simp: list_ex_iff is_success_def handle_no_permission_def dest!: find_booking_id find_room_plain)

theorem second_review_rejected_witness:
  "(\<exists>r\<in>set (reviews reviewed_store). review_booking r = 1)
   \<and> fst (ReviewCreateView reviewed_store 9 (Some guest2) POST 1 (Some 5) ''Again'')
       = FormInvalid [ReviewExists]
   \<and> snd (ReviewCreateView reviewed_store 9 (Some guest2) POST 1 (Some 5) ''Again'') = reviewed_store"
proof -
  have a: "\<exists>r\<in>set (reviews reviewed_store). review_booking r = 1"
    by (simp add: reviewed_store_def review1_def)
  have tf: "test_func (Some guest2)"
    by (simp add: scenario_defs test_func_def is_admin_def is_staff_def)
  have fb: "find (\<lambda>b. booking_id b = 1 \<and> booking_guest b = user_id guest2) (bookings reviewed_store)
              = Some pending1"
    by (simp add: reviewed_store_def booked_store_def scenario_defs pending1_def)
  have fr: "find (\<lambda>r. room_id r = booking_room pending1) (rooms reviewed_store) = Some room1"
    by (simp add: reviewed_store_def booked_store_def scenario_defs pending1_def)
  have ow: "room_owner room1 \<noteq> user_id guest2"
    by (simp add: scenario_defs)
  note T = second_review_rejected [OF a, of 9 "Some guest2" POST "Some 5" "''Again''"]
  from T have "snd (ReviewCreateView reviewed_store 9 (Some guest2) POST 1 (Some 5) ''Again'') = reviewed_store"
    by blast
  moreover from T tf fb fr ow
  have "fst (ReviewCreateView reviewed_store 9 (Some guest2) POST 1 (Some 5) ''Again'') = FormInvalid [ReviewExists]"
    by force
  ultimately show ?thesis using a by blast
qed

text \<open>
  C9, as it holds. With a room in the query string, the list shows every viewer exactly
  the Approved reviews of that room. Without it, an anonymous viewer gets exactly the
  Approved reviews; a logged-in viewer who owns some room gets exactly the reviews of the
  rooms they own, in any status; a logged-in viewer who owns no room gets exactly the
  reviews they wrote, in any status. In every case a review shown to a viewer who is
  neither the owner of its room nor its author is Approved. The room page shows exactly
  the Approved reviews of the room.
\<close>

theorem review_list_visibility:
  "set (ReviewListView_get_queryset s ru room_param) =
     {r \<in> set (reviews s).
        (case room_param of
           Some rid \<Rightarrow> review_room r = rid \<and> review_status r = REVIEW_APPROVED
         | None \<Rightarrow>
            (case ru of
               None \<Rightarrow> review_status r = REVIEW_APPROVED
             | Some u \<Rightarrow>
                 if is_owner s u then room_owner_of s (review_room r) = Some (user_id u)
                 else review_guest r = user_id u))}
   \<and> (\<forall>r\<in>set (ReviewListView_get_queryset s ru room_param).
          outsider s ru r \<longrightarrow> review_status r = REVIEW_APPROVED)
   \<and> set (RoomDetailView_reviews s room_pk) =
       {r \<in> set (reviews s). review_room r = room_pk \<and> review_status r = REVIEW_APPROVED}"
  unfolding ReviewListView_get_queryset_def RoomDetailView_reviews_def outsider_def Let_def
  by (auto split: option.splits if_splits)

text \<open>
  C9, as stated, fails: a guest who also owns a room is not shown the review they wrote
  for somebody else's room, and an owner who filters by room is not shown the Pending
  review of that room.
\<close>

theorem review_list_visibility_counterexample:
  "\<not> claimed_visibility two_owner_store (Some guest2) None
   \<and> \<not> claimed_visibility two_owner_store (Some owner1) (Some 1)"
  by (simp add: claimed_visibility_def ReviewListView_get_queryset_def two_owner_store_def
        reviewed_store_def booked_store_def scenario_defs room2_def review1_def is_owner_def
        room_owner_of_def outsider_def Let_def)

theorem review_list_visibility_witness:
  "review1 \<notin> set (ReviewListView_get_queryset two_owner_store (Some guest2) None)
   \<and> review1 \<in> set (ReviewListView_get_queryset two_owner_store (Some owner1) None)
   \<and> review1 \<notin> set (ReviewListView_get_queryset two_owner_store (Some owner1) (Some 1))
   \<and> review1 \<notin> set (ReviewListView_get_queryset two_owner_store None None)"
proof -
  have o1: "is_owner two_owner_store owner1" and o2: "is_owner two_owner_store guest2"
    by (simp_all add: is_owner_def two_owner_store_def scenario_defs room2_def)
  have rs: "reviews two_owner_store = [review1]"
    by (simp add: two_owner_store_def reviewed_store_def)
  have r1: "room_owner_of two_owner_store (review_room review1) = Some 1"
    by (simp add: room_owner_of_def two_owner_store_def review1_def scenario_defs room2_def)
  have f: "review_status review1 = REVIEW_PENDING" "user_id owner1 = 1" "user_id guest2 = 2"
    by (simp_all add: review1_def scenario_defs)
  note eq = conjunct1 [OF review_list_visibility]
  have a: "review1 \<notin> set (ReviewListView_get_queryset two_owner_store (Some guest2) None)"
    unfolding eq [of two_owner_store "Some guest2" None] by (simp add: o2 r1 f)
  have b: "review1 \<in> set (ReviewListView_get_queryset two_owner_store (Some owner1) None)"
    unfolding eq [of two_owner_store "Some owner1" None] by (simp add: o1 rs r1 f)
  have c: "review1 \<notin> set (ReviewListView_get_queryset two_owner_store (Some owner1) (Some 1))"
    unfolding eq [of two_owner_store "Some owner1" "Some 1"] by (simp add: f)
  have d: "review1 \<notin> set (ReviewListView_get_queryset two_owner_store None None)"
    unfolding eq [of two_owner_store None None] by (simp add: f)
  from a b c d show ?thesis by simp
qed

subsection \<open>The keys of the review table\<close>

lemma reviews_Booking_save [simp]: "reviews (Booking_save s b) = reviews s"
  by (simp add: Booking_save_def)

lemma reviews_history_save [simp]: "reviews (BookingHistory_save s h) = reviews s"
  by (simp add: BookingHistory_save_def)

lemma reviews_history_create:
  "BookingHistory_create s k old new w d = Inr s2 \<Longrightarrow> reviews s2 = reviews s"
  unfolding BookingHistory_create_def by (auto split: if_splits)

lemma reviews_update_or_create:
  "BookingHistory_update_or_create s k old new w d = Inr s2 \<Longrightarrow> reviews s2 = reviews s"
  unfolding BookingHistory_update_or_create_def
  by (auto split: sum.splits option.splits dest: reviews_history_create)

lemma reviews_create_booking:
  "reviews (snd (BookingCreateView s today ru request_method pk check_in check_out)) = reviews s"
proof -
  have fv: "reviews (snd (BookingCreateView_form_valid s u room ci co)) = reviews s" for u room ci co
    using form_valid_cases [of s u room ci co "fst (BookingCreateView_form_valid s u room ci co)"
        "snd (BookingCreateView_form_valid s u room ci co)"]
    by auto
  show ?thesis
    unfolding BookingCreateView_def
    by (auto split: option.splits sum.splits if_splits simp: fv)
qed

lemma reviews_cancel_booking:
  "reviews (snd (BookingDeleteView s ru DELETE pk)) = reviews s"
  unfolding BookingDeleteView_def Let_def
  by (auto split: option.splits sum.splits if_splits dest: reviews_update_or_create)

lemma reviews_update_booking:
  "reviews (snd (update_booking_view s today ru request_method pk check_in check_out)) = reviews s"
  unfolding update_booking_view_def Let_def
  by (auto split: option.splits sum.splits if_splits prod.splits dest: reviews_history_create)

lemma reviews_confirm_booking:
  "reviews (snd (confirm_booking_view s ru request_method pk)) = reviews s"
  unfolding confirm_booking_view_def Let_def
  by (auto split: option.splits sum.splits if_splits bool.splits dest: reviews_history_create)


lemma find_review_member:
  "find P xs = Some r \<Longrightarrow> r \<in> set xs \<and> P r"
  by (auto simp: find_Some_iff)

lemma review_save_keys:
  assumes "review_keys_ok s" and "r \<in> set (reviews s)"
    and "review_id r' = review_id r" and "review_booking r' = review_booking r"
    and "review_guest r' = review_guest r" and "review_room r' = review_room r"
  shows "review_keys_ok (Review_save s r')"
proof -
  have one: "\<forall>x\<in>set (reviews s). review_id x = review_id r \<longrightarrow> x = r"
    using same_key_same_row [of review_id "reviews s" _ r] assms(1,2)
    unfolding review_keys_ok_def by blast
  have "map review_id (reviews (Review_save s r')) = map review_id (reviews s)"
    "map review_booking (reviews (Review_save s r')) = map review_booking (reviews s)"
    "map review_guest (reviews (Review_save s r')) = map review_guest (reviews s)"
    "map review_room (reviews (Review_save s r')) = map review_room (reviews s)"
    unfolding Review_save_def using one by (auto simp: assms(3-6))
  with assms(1) show ?thesis unfolding review_keys_ok_def by simp
qed

lemma review_delete_keys:
  "review_keys_ok s \<Longrightarrow> review_keys_ok (Review_delete s r)"
  unfolding review_keys_ok_def Review_delete_def by (simp add: distinct_map_filter)

lemma review_insert_keys:
  assumes "review_keys_ok s" and "Review_insert s r = Inr s'"
  shows "review_keys_ok s'"
proof -
  have fresh: "next_id (map review_id (reviews s)) \<notin> review_id ` set (reviews s)"
    using next_id_fresh [of _ "map review_id (reviews s)"] by fastforce
  from assms(2) have new: "\<forall>x\<in>set (reviews s). review_booking x \<noteq> review_booking r
        \<and> review_guest x \<noteq> review_guest r \<and> review_room x \<noteq> review_room r"
    and s': "s' = s\<lparr>reviews := reviews s @ [r\<lparr>review_id := next_id (map review_id (reviews s))\<rparr>]\<rparr>"
    unfolding Review_insert_def by (auto simp: list_ex_iff split: if_splits)
  from assms(1) fresh new show ?thesis
    unfolding review_keys_ok_def s' by (auto simp: image_iff)
qed

lemma keys_create_review:
  "review_keys_ok s \<Longrightarrow>
     review_keys_ok (snd (ReviewCreateView s now ru request_method pk rating_arg text_arg))"
  unfolding ReviewCreateView_def
  by (auto split: option.splits sum.splits exn.splits if_splits dest: review_insert_keys)

lemma keys_update_review:
  "review_keys_ok s \<Longrightarrow> review_keys_ok (snd (ReviewUpdateView s ru request_method pk rating_arg text_arg))"
  unfolding ReviewUpdateView_def
  by (auto split: option.splits sum.splits if_splits dest!: find_review_member
        intro!: review_save_keys)

lemma keys_delete_review:
  "review_keys_ok s \<Longrightarrow> review_keys_ok (snd (ReviewDeleteView s ru request_method pk))"
  unfolding ReviewDeleteView_def
  by (auto split: option.splits if_splits http_method.splits intro!: review_delete_keys)

lemma keys_reply_review:
  "review_keys_ok s \<Longrightarrow> review_keys_ok (snd (ReviewReplyView s now ru request_method pk reply_arg))"
  unfolding ReviewReplyView_def
  by (auto split: option.splits if_splits dest!: find_review_member intro!: review_save_keys)

lemma keys_moderate_review:
  "review_keys_ok s \<Longrightarrow>
     review_keys_ok (snd (ReviewModerateView s now ru request_method pk status_arg comment_arg))"
  unfolding ReviewModerateView_def
  by (auto split: option.splits if_splits dest!: find_review_member intro!: review_save_keys)

lemma keys_quick_moderate_review:
  "review_keys_ok s \<Longrightarrow> review_keys_ok (snd (ReviewQuickModerateView s now ru pk action))"
  unfolding ReviewQuickModerateView_def
  by (auto split: option.splits if_splits dest!: find_review_member intro!: review_save_keys)

lemma review_keys_Booking_delete:
  "review_keys_ok s \<Longrightarrow> review_keys_ok (Booking_delete s b)"
  unfolding review_keys_ok_def Booking_delete_def by (simp add: distinct_map_filter)

lemma keys_cancel_booking:
  assumes "review_keys_ok s"
  shows "review_keys_ok (snd (BookingDeleteView s ru request_method pk))"
proof (cases "request_method = DELETE")
  case True
  with assms show ?thesis by (simp add: review_keys_ok_def reviews_cancel_booking)
next
  case False
  from delete_view_other [OF False, of s ru pk] assms show ?thesis
    by (auto intro: review_keys_Booking_delete)
qed

lemma reachable_review_keys: "reachable s \<Longrightarrow> review_keys_ok s"
proof (induction rule: reachable.induct)
  case (initial s)
  then show ?case by (simp add: review_keys_ok_def)
next
  case (create_booking s today ru request_method pk check_in check_out)
  then show ?case by (simp add: review_keys_ok_def reviews_create_booking)
next
  case (cancel_booking s ru request_method pk)
  then show ?case by (simp add: keys_cancel_booking)
next
  case (update_booking s today ru request_method pk check_in check_out)
  then show ?case by (simp add: review_keys_ok_def reviews_update_booking)
next
  case (confirm_booking s ru request_method pk)
  then show ?case by (simp add: review_keys_ok_def reviews_confirm_booking)
next
  case (create_review s now ru request_method pk rating_arg text_arg)
  then show ?case by (simp add: keys_create_review)
next
  case (update_review s ru request_method pk rating_arg text_arg)
  then show ?case by (simp add: keys_update_review)
next
  case (delete_review s ru request_method pk)
  then show ?case by (simp add: keys_delete_review)
next
  case (reply_review s now ru request_method pk reply_arg)
  then show ?case by (simp add: keys_reply_review)
next
  case (moderate_review s now ru request_method pk status_arg comment_arg)
  then show ?case by (simp add: keys_moderate_review)
next
  case (quick_moderate_review s now ru pk action)
  then show ?case by (simp add: keys_quick_moderate_review)
qed

lemma review_refused_same_guest_or_room:
  assumes "\<exists>r\<in>set (reviews s). review_guest r = user_id u
              \<or> (\<exists>b. find (\<lambda>b. booking_id b = pk \<and> booking_guest b = user_id u) (bookings s) = Some b
                     \<and> review_room r = booking_room b)"
  shows "\<not> is_success (fst (ReviewCreateView s now (Some u) request_method pk rating_arg text_arg))
       \<and> snd (ReviewCreateView s now (Some u) request_method pk rating_arg text_arg) = s"
  using assms
  unfolding ReviewCreateView_def Review_insert_def
  by (auto split: option.splits sum.splits exn.splits if_splits
        simp: list_ex_iff is_success_def handle_no_permission_def dest!: find_room_plain)

text \<open>
  C10. In every reachable store no two reviews have the same guest and no two reviews
  have the same room. A request to create a review by a guest who has a stored review,
  or for a booking of a room that has a stored review, does not succeed and leaves the
  store as it was, whatever the booking.
\<close>

theorem one_review_per_guest_and_room:
  assumes "reachable s"
  shows "distinct (map review_guest (reviews s))
       \<and> distinct (map review_room (reviews s))
       \<and> ((\<exists>r\<in>set (reviews s). review_guest r = user_id u
              \<or> (\<exists>b. find (\<lambda>b. booking_id b = pk \<and> booking_guest b = user_id u) (bookings s) = Some b
                     \<and> review_room r = booking_room b))
           \<longrightarrow> \<not> is_success (fst (ReviewCreateView s now (Some u) request_method pk rating_arg text_arg))
             \<and> snd (ReviewCreateView s now (Some u) request_method pk rating_arg text_arg) = s)"
  using reachable_review_keys [OF assms]
    review_refused_same_guest_or_room [of s u pk now request_method rating_arg text_arg]
  unfolding review_keys_ok_def by blast


lemmas review_defs = ReviewCreateView_def ReviewForm_clean_def Review_insert_def

lemma stay1_value:
  "stay1 = two_room_store\<lparr>bookings :=
          [\<lparr>booking_id = 1, booking_guest = 2, booking_room = 1, check_in_date = 739982,
            check_out_date = 739985, booking_status = PENDING, total_cost = 3000\<rparr>],
        histories :=
          [\<lparr>history_id = 1, history_booking = 1, old_status = [], new_status = ''Pending'',
            changed_by = ''SYSTEM'', change_description = CreatedByUser\<rparr>]\<rparr>"
  by (simp add: stay1_def two_room_store_def room3_def scenario_defs create_defs)

lemma stay2_value:
  "stay2 = two_room_store\<lparr>bookings :=
          [\<lparr>booking_id = 1, booking_guest = 2, booking_room = 1, check_in_date = 739982,
            check_out_date = 739985, booking_status = PENDING, total_cost = 3000\<rparr>,
           \<lparr>booking_id = 2, booking_guest = 2, booking_room = 3, check_in_date = 739986,
            check_out_date = 739987, booking_status = PENDING, total_cost = 1500\<rparr>],
        histories :=
          [\<lparr>history_id = 1, history_booking = 1, old_status = [], new_status = ''Pending'',
            changed_by = ''SYSTEM'', change_description = CreatedByUser\<rparr>,
           \<lparr>history_id = 2, history_booking = 2, old_status = [], new_status = ''Pending'',
            changed_by = ''SYSTEM'', change_description = CreatedByUser\<rparr>]\<rparr>"
  unfolding stay2_def stay1_value
  by (simp add: two_room_store_def room3_def scenario_defs create_defs)

lemma stay_reviewed_reviews:
  "map review_guest (reviews stay_reviewed) = [2] \<and> map review_room (reviews stay_reviewed) = [1]
   \<and> bookings stay_reviewed = bookings stay2"
  unfolding stay_reviewed_def stay2_value
  by (simp add: two_room_store_def room3_def scenario_defs review_defs test_func_def is_admin_def
        is_staff_def next_id_def)

theorem one_review_per_guest_and_room_witness:
  "reachable stay_reviewed
   \<and> map review_guest (reviews stay_reviewed) = [2]
   \<and> map booking_room (bookings stay_reviewed) = [1, 3]
   \<and> \<not> is_success (fst (ReviewCreateView stay_reviewed 10 (Some guest2) POST 2 (Some 4) ''Also good''))
   \<and> snd (ReviewCreateView stay_reviewed 10 (Some guest2) POST 2 (Some 4) ''Also good'')
       = stay_reviewed"
proof -
  have "reachable two_room_store"
    by (rule reachable.initial) (simp_all add: two_room_store_def scenario_defs)
  then have "reachable stay1" unfolding stay1_def by (rule reachable.create_booking)
  then have "reachable stay2" unfolding stay2_def by (rule reachable.create_booking)
  then have r: "reachable stay_reviewed" unfolding stay_reviewed_def by (rule reachable.create_review)
  have g: "map review_guest (reviews stay_reviewed) = [2]"
    and b: "bookings stay_reviewed = bookings stay2"
    using stay_reviewed_reviews by simp_all
  have rooms: "map booking_room (bookings stay_reviewed) = [1, 3]"
    unfolding b stay2_value by simp
  from g have ex: "\<exists>r\<in>set (reviews stay_reviewed). review_guest r = user_id guest2"
    by (cases "reviews stay_reviewed") (auto simp: scenario_defs)
  from one_review_per_guest_and_room [OF r, of guest2 2 10 POST "Some 4" "''Also good''"] ex
  have "\<not> is_success (fst (ReviewCreateView stay_reviewed 10 (Some guest2) POST 2 (Some 4) ''Also good''))
     \<and> snd (ReviewCreateView stay_reviewed 10 (Some guest2) POST 2 (Some 4) ''Also good'')
         = stay_reviewed"
    by blast
  with r g rooms show ?thesis by simp
qed

subsection \<open>The invariant of the bookings\<close>

text \<open>
  Creating, cancelling and changing the dates of a booking keep the invariant, and so
  does confirming a booking that is not Cancelled.
\<close>

lemma bookings_history_create:
  "BookingHistory_create s k old new w d = Inr s2 \<Longrightarrow> bookings s2 = bookings s"
  unfolding BookingHistory_create_def by (auto split: if_splits)

lemma no_overlap_append:
  assumes "no_overlap s" and "bookings s' = bookings s @ [b]"
    and "\<not> has_conflict s (booking_room b) (check_in_date b) (check_out_date b) None"
  shows "no_overlap s'"
  using assms unfolding no_overlap_def has_conflict_def overlaps_def
  by (auto; force)

lemma no_overlap_replace:
  assumes "no_overlap s"
    and "bookings s' = map (\<lambda>x. if booking_id x = pk then b' else x) (bookings s)"
    and "booking_id b' = pk"
    and "booking_status b' \<in> {PENDING, CONFIRMED} \<longrightarrow>
           \<not> has_conflict s (booking_room b') (check_in_date b') (check_out_date b') (Some pk)"
  shows "no_overlap s'"
  unfolding no_overlap_def
proof (intro ballI impI, elim conjE)
  fix x y
  assume x: "x \<in> set (bookings s')" and y: "y \<in> set (bookings s')"
    and ne: "booking_id x \<noteq> booking_id y" and rm: "booking_room x = booking_room y"
    and ax: "booking_status x \<in> {PENDING, CONFIRMED}"
    and ay: "booking_status y \<in> {PENDING, CONFIRMED}"
  from x assms(2) consider "x = b'" | "x \<in> set (bookings s)" "booking_id x \<noteq> pk"
    by (auto split: if_splits)
  then show "\<not> overlaps (check_in_date x) (check_out_date x) (check_in_date y) (check_out_date y)"
  proof cases
    case 1
    with ne assms(3) have "booking_id y \<noteq> pk" by auto
    with y assms(2,3) have yin: "y \<in> set (bookings s)" by (auto split: if_splits)
    from 1 ax assms(4) have "\<not> has_conflict s (booking_room b') (check_in_date b') (check_out_date b') (Some pk)"
      by simp
    with yin ay rm 1 \<open>booking_id y \<noteq> pk\<close> show ?thesis
      unfolding has_conflict_def overlaps_def by auto
  next
    case 2
    from y assms(2) consider "y = b'" | "y \<in> set (bookings s)" "booking_id y \<noteq> pk"
      by (auto split: if_splits)
    then show ?thesis
    proof cases
      case 1
      from 1 ay assms(4) have "\<not> has_conflict s (booking_room b') (check_in_date b') (check_out_date b') (Some pk)"
        by simp
      with 2 ax rm 1 show ?thesis
        unfolding has_conflict_def overlaps_def by auto
    next
      case b: 2
      with 2 assms(1) ne rm ax ay show ?thesis
        unfolding no_overlap_def by blast
    qed
  qed
qed

lemma no_overlap_same_bookings:
  "no_overlap s \<Longrightarrow> bookings s' = bookings s \<Longrightarrow> no_overlap s'"
  unfolding no_overlap_def by simp

lemma no_overlap_create:
  assumes "no_overlap s"
  shows "no_overlap (snd (BookingCreateView s today ru request_method pk check_in check_out))"
proof -
  have fv: "no_overlap (snd (BookingCreateView_form_valid s u room ci co))" for u room ci co
    using form_valid_cases [of s u room ci co "fst (BookingCreateView_form_valid s u room ci co)"
        "snd (BookingCreateView_form_valid s u room ci co)"] assms
    by (auto intro: no_overlap_append)
  show ?thesis
    unfolding BookingCreateView_def using assms
    by (auto split: option.splits sum.splits if_splits simp: fv)
qed

lemma no_overlap_Booking_delete:
  "no_overlap s \<Longrightarrow> no_overlap (Booking_delete s b)"
  unfolding no_overlap_def Booking_delete_def by auto

lemma no_overlap_delete_request:
  assumes "no_overlap s"
  shows "no_overlap (snd (BookingDeleteView s ru DELETE pk))"
proof -
  obtain resp s' where r: "BookingDeleteView s ru DELETE pk = (resp, s')"
    by (cases "BookingDeleteView s ru DELETE pk")
  from cancel_cases [OF r] show ?thesis
  proof (elim disjE exE conjE)
    assume "s' = s" with r assms show ?thesis by simp
  next
    fix u b e
    assume b: "find (\<lambda>b. booking_id b = pk \<and> booking_guest b = user_id u) (bookings s) = Some b"
      and s': "s' = Booking_save s (b\<lparr>booking_status := CANCELLED\<rparr>)"
    from find_booking_id [OF b] have "booking_id b = pk" by simp
    then have "no_overlap s'"
      by (intro no_overlap_replace [OF assms, of s' pk "b\<lparr>booking_status := CANCELLED\<rparr>"])
         (simp_all add: s' bookings_Booking_save)
    with r show ?thesis by simp
  next
    fix u b
    assume b: "find (\<lambda>b. booking_id b = pk \<and> booking_guest b = user_id u) (bookings s) = Some b"
      and uc: "BookingHistory_update_or_create (Booking_save s (b\<lparr>booking_status := CANCELLED\<rparr>)) pk
                 (status_value (booking_status b)) (status_value CANCELLED)
                 (display_name u) BookingCancelledText = Inr s'"
    from find_booking_id [OF b] have "booking_id b = pk" by simp
    moreover from update_or_create_result [OF uc]
    have "bookings s' = bookings (Booking_save s (b\<lparr>booking_status := CANCELLED\<rparr>))" by simp
    ultimately have "no_overlap s'"
      by (intro no_overlap_replace [OF assms, of s' pk "b\<lparr>booking_status := CANCELLED\<rparr>"])
         (simp_all add: bookings_Booking_save)
    with r show ?thesis by simp
  qed
qed


lemma update_bookings_cases:
  "bookings (snd (update_booking_view s today ru request_method pk check_in check_out)) = bookings s
   \<or> (\<exists>u b room ci co. ru = Some u
       \<and> find (\<lambda>b. booking_id b = pk \<and> booking_guest b = user_id u) (bookings s) = Some b
       \<and> \<not> has_conflict s (booking_room b) ci co (Some pk)
       \<and> bookings (snd (update_booking_view s today ru request_method pk check_in check_out)) =
           map (\<lambda>x. if booking_id x = pk then updated_booking b room ci co else x) (bookings s))"
proof (cases ru)
  case None
  then show ?thesis by (simp add: update_booking_view_def)
next
  case (Some u)
  show ?thesis
  proof (cases "find (\<lambda>b. booking_id b = pk \<and> booking_guest b = user_id u) (bookings s)")
    case None
    with Some show ?thesis by (simp add: update_booking_view_def)
  next
    case fb: (Some b)
    from find_booking_id [OF fb] have bid: "booking_id b = pk" by simp
    show ?thesis
    proof (cases "BookingCreateForm_clean today check_in check_out")
      case (Inl errs)
      with Some fb show ?thesis by (simp add: update_booking_view_def)
    next
      case (Inr dates)
      obtain ci co where dates: "dates = (ci, co)" by (cases dates)
      show ?thesis
      proof (cases "find (\<lambda>r. room_id r = booking_room b) (rooms s)")
        case None
        with Some fb Inr dates show ?thesis by (simp add: update_booking_view_def)
      next
        case fr: (Some room)
        from find_room_plain [OF fr] have rid: "room_id room = booking_room b" by simp
        show ?thesis
        proof (cases "request_method = POST \<and> \<not> has_conflict s (booking_room b) ci co (Some pk)")
          case False
          with Some fb Inr dates fr rid bid show ?thesis
            by (auto simp: update_booking_view_def excl_conflicting_iff)
        next
          case True
          with Some fb Inr dates fr rid bid
          have "bookings (snd (update_booking_view s today ru request_method pk check_in check_out)) =
                  bookings (Booking_save s (updated_booking b room ci co))"
            unfolding update_booking_view_def Let_def
            by (auto simp: excl_conflicting_iff updated_booking_def
                  split: sum.splits option.splits dest: bookings_history_create)
          then have "bookings (snd (update_booking_view s today ru request_method pk check_in check_out)) =
                  map (\<lambda>x. if booking_id x = pk then updated_booking b room ci co else x)
                    (bookings s)"
            using bid by (simp add: bookings_Booking_save updated_booking_def)
          with True fb Some show ?thesis by blast
        qed
      qed
    qed
  qed
qed

lemma no_overlap_cancel:
  assumes "no_overlap s"
  shows "no_overlap (snd (BookingDeleteView s ru request_method pk))"
proof (cases "request_method = DELETE")
  case True
  with assms show ?thesis by (simp add: no_overlap_delete_request)
next
  case False
  from delete_view_other [OF False, of s ru pk] assms show ?thesis
    by (auto intro: no_overlap_Booking_delete)
qed

lemma no_overlap_update:
  assumes "no_overlap s"
  shows "no_overlap (snd (update_booking_view s today ru request_method pk check_in check_out))"
  using update_bookings_cases [of s today ru request_method pk check_in check_out]
proof (elim disjE exE conjE)
  assume "bookings (snd (update_booking_view s today ru request_method pk check_in check_out)) = bookings s"
  with assms show ?thesis by (rule no_overlap_same_bookings)
next
  fix u b room ci co
  assume "ru = Some u"
    and b: "find (\<lambda>b. booking_id b = pk \<and> booking_guest b = user_id u) (bookings s) = Some b"
    and nc: "\<not> has_conflict s (booking_room b) ci co (Some pk)"
    and eq: "bookings (snd (update_booking_view s today ru request_method pk check_in check_out)) =
           map (\<lambda>x. if booking_id x = pk then updated_booking b room ci co else x) (bookings s)"
  from find_booking_id [OF b] have "booking_id b = pk" by simp
  with nc show ?thesis
    by (intro no_overlap_replace [OF assms eq]) (simp_all add: updated_booking_def)
qed

lemma confirm_bookings_cases:
  "bookings (snd (confirm_booking_view s ru request_method pk)) = bookings s
   \<or> (\<exists>b. find (\<lambda>b. booking_id b = pk) (bookings s) = Some b
       \<and> bookings (snd (confirm_booking_view s ru request_method pk)) =
           map (\<lambda>x. if booking_id x = pk then b\<lparr>booking_status := CONFIRMED\<rparr> else x) (bookings s))"
proof (cases ru)
  case None
  then show ?thesis by (simp add: confirm_booking_view_def)
next
  case (Some u)
  show ?thesis
  proof (cases "find (\<lambda>b. booking_id b = pk) (bookings s)")
    case None
    with Some show ?thesis by (simp add: confirm_booking_view_def)
  next
    case fb: (Some b)
    from find_plain_id [OF fb] have bid: "booking_id b = pk" by simp
    show ?thesis
    proof (cases "request_method = POST \<and> (booking_guest b = user_id u
              \<or> (\<exists>room. find (\<lambda>r. room_id r = booking_room b) (rooms s) = Some room
                     \<and> room_owner room = user_id u))")
      case False
      with Some fb have "snd (confirm_booking_view s ru request_method pk) = s"
        unfolding confirm_booking_view_def
        by (auto split: option.splits bool.splits)
      then show ?thesis by simp
    next
      case True
      with Some fb bid
      have "bookings (snd (confirm_booking_view s ru request_method pk)) =
              bookings (Booking_save s (b\<lparr>booking_status := CONFIRMED\<rparr>))"
        unfolding confirm_booking_view_def Let_def
        by (auto split: sum.splits option.splits dest: bookings_history_create)
      then have "bookings (snd (confirm_booking_view s ru request_method pk)) =
              map (\<lambda>x. if booking_id x = pk then b\<lparr>booking_status := CONFIRMED\<rparr> else x)
                (bookings s)"
        using bid by (simp add: bookings_Booking_save)
      with fb show ?thesis by blast
    qed
  qed
qed

lemma no_overlap_confirm:
  assumes "no_overlap s"
    and "\<forall>b. find (\<lambda>b. booking_id b = pk) (bookings s) = Some b \<longrightarrow> booking_status b \<noteq> CANCELLED"
  shows "no_overlap (snd (confirm_booking_view s ru request_method pk))"
  using confirm_bookings_cases [of s ru request_method pk]
proof (elim disjE exE conjE)
  assume "bookings (snd (confirm_booking_view s ru request_method pk)) = bookings s"
  with assms(1) show ?thesis by (rule no_overlap_same_bookings)
next
  fix b
  assume b: "find (\<lambda>b. booking_id b = pk) (bookings s) = Some b"
    and eq: "bookings (snd (confirm_booking_view s ru request_method pk)) =
           map (\<lambda>x. if booking_id x = pk then b\<lparr>booking_status := CONFIRMED\<rparr> else x) (bookings s)"
  from find_plain_id [OF b] have bid: "booking_id b = pk" and bin: "b \<in> set (bookings s)"
    by simp_all
  from assms(2) b have "booking_status b \<in> {PENDING, CONFIRMED}"
    by (cases "booking_status b") auto
  with assms(1) bin bid
  have "\<not> has_conflict s (booking_room b) (check_in_date b) (check_out_date b) (Some pk)"
    unfolding no_overlap_def has_conflict_def by auto
  with bid show ?thesis
    by (intro no_overlap_replace [OF assms(1) eq]) simp_all
qed

lemmas cancel_defs = BookingDeleteView_def BookingHistory_update_or_create_def
  BookingHistory_get_def BookingHistory_save_def Booking_save_def display_name_def
  get_full_name_def

lemma revived1_value:
  "revived1 = fresh_store\<lparr>bookings :=
          [\<lparr>booking_id = 1, booking_guest = 2, booking_room = 1, check_in_date = 739982,
            check_out_date = 739986, booking_status = PENDING, total_cost = 4000\<rparr>],
        histories :=
          [\<lparr>history_id = 1, history_booking = 1, old_status = [], new_status = ''Pending'',
            changed_by = ''SYSTEM'', change_description = CreatedByUser\<rparr>]\<rparr>"
  by (simp add: revived1_def scenario_defs create_defs)

lemma revived2_value:
  "revived2 = fresh_store\<lparr>bookings :=
          [\<lparr>booking_id = 1, booking_guest = 2, booking_room = 1, check_in_date = 739982,
            check_out_date = 739986, booking_status = CANCELLED, total_cost = 4000\<rparr>],
        histories :=
          [\<lparr>history_id = 1, history_booking = 1, old_status = ''Pending'',
            new_status = ''Cancelled'', changed_by = ''Gleb Guest'',
            change_description = BookingCancelledText\<rparr>]\<rparr>"
  unfolding revived2_def revived1_value
  by (simp add: scenario_defs cancel_defs test_func_def is_admin_def is_staff_def Let_def)

lemma revived3_value:
  "revived3 = fresh_store\<lparr>bookings :=
          [\<lparr>booking_id = 1, booking_guest = 2, booking_room = 1, check_in_date = 739982,
            check_out_date = 739986, booking_status = CANCELLED, total_cost = 4000\<rparr>,
           \<lparr>booking_id = 2, booking_guest = 3, booking_room = 1, check_in_date = 739984,
            check_out_date = 739987, booking_status = PENDING, total_cost = 3000\<rparr>],
        histories :=
          [\<lparr>history_id = 1, history_booking = 1, old_status = ''Pending'',
            new_status = ''Cancelled'', changed_by = ''Gleb Guest'',
            change_description = BookingCancelledText\<rparr>,
           \<lparr>history_id = 2, history_booking = 2, old_status = [], new_status = ''Pending'',
            changed_by = ''SYSTEM'', change_description = CreatedByUser\<rparr>]\<rparr>"
  unfolding revived3_def revived2_value
  by (simp add: scenario_defs create_defs)

lemma confirm_revived:
  "confirm_booking_view revived3 (Some guest2) POST 1 =
     (RedirectSuccess BookingConfirmed,
      fresh_store\<lparr>bookings :=
          [\<lparr>booking_id = 1, booking_guest = 2, booking_room = 1, check_in_date = 739982,
            check_out_date = 739986, booking_status = CONFIRMED, total_cost = 4000\<rparr>,
           \<lparr>booking_id = 2, booking_guest = 3, booking_room = 1, check_in_date = 739984,
            check_out_date = 739987, booking_status = PENDING, total_cost = 3000\<rparr>],
        histories :=
          [\<lparr>history_id = 1, history_booking = 1, old_status = ''Cancelled'',
            new_status = ''Confirmed'', changed_by = ''Gleb Guest'',
            change_description = BookingConfirmedText\<rparr>,
           \<lparr>history_id = 2, history_booking = 2, old_status = [], new_status = ''Pending'',
            changed_by = ''SYSTEM'', change_description = CreatedByUser\<rparr>]\<rparr>)"
  unfolding revived3_value
  by (simp add: scenario_defs confirm_booking_view_def cancel_defs Let_def)

text \<open>
  C1 says that every operation keeps the invariant in every reachable store. The code
  does not: confirming sets the status to Confirmed whatever the status was, without the
  conflict check the creation and the date change make. In the reachable store below the
  invariant holds, the confirmation of the cancelled booking succeeds, and the store it
  leaves has two overlapping bookings of room 1, one Confirmed and one Pending.
\<close>

theorem confirm_cancelled_breaks_no_overlap:
  "reachable revived3 \<and> no_overlap revived3
   \<and> fst (confirm_booking_view revived3 (Some guest2) POST 1) = RedirectSuccess BookingConfirmed
   \<and> reachable revived4 \<and> \<not> no_overlap revived4"
proof -
  have "reachable fresh_store"
    by (rule reachable.initial) (simp_all add: scenario_defs)
  then have "reachable revived1" unfolding revived1_def by (rule reachable.create_booking)
  then have "reachable revived2" unfolding revived2_def by (rule reachable.cancel_booking)
  then have r3: "reachable revived3" unfolding revived3_def by (rule reachable.create_booking)
  then have r4: "reachable revived4" unfolding revived4_def by (rule reachable.confirm_booking)
  have ok: "no_overlap revived3"
    unfolding revived3_value by (simp add: no_overlap_def)
  have bad: "\<not> no_overlap revived4"
    unfolding revived4_def confirm_revived by (simp add: no_overlap_def overlaps_def)
  from r3 r4 ok bad show ?thesis unfolding confirm_revived by simp
qed

theorem confirm_cancelled_breaks_no_overlap_witness:
  "no_overlap revived3
   \<and> \<not> no_overlap (snd (confirm_booking_view revived3 (Some guest2) POST 1))"
  using confirm_cancelled_breaks_no_overlap unfolding revived4_def by blast

end
